theory Spec2Isabelle
  imports Complex_Main "HOL-Library.Code_Target_Nat"
begin

section \<open>Strings of the host language\<close>

text \<open>
  The provider (\<^verbatim>\<open>src/languages/turbo-gherkin/provider.ts\<close>) works on JavaScript
  strings, which are sequences of UTF-16 code units. A code unit is modelled by its number,
  a string by the list of its code units, so that \<open>length\<close> is the \<^verbatim>\<open>length\<close> of the
  source and the regular expressions' character classes can be written as the source has
  them, the Cyrillic ranges included. \<open>js\<close> turns a literal into such a string.
\<close>

type_synonym jchar = nat
type_synonym jstring = "jchar list"

definition js :: "string \<Rightarrow> jstring" where
  "js s = map of_char s"

text \<open>The class \<^verbatim>\<open>\s\<close> of ECMAScript regular expressions (white space and line
  terminators); \<^verbatim>\<open>String.prototype.trim\<close> strips the same code units.\<close>

definition isSpace :: "jchar \<Rightarrow> bool" where
  "isSpace c = (c \<in> set [9, 10, 11, 12, 13, 32, 160, 5760, 8232, 8233, 8239, 8287, 12288, 65279]
                \<or> (8192 \<le> c \<and> c \<le> 8202))"

text \<open>The dot of a regular expression matches every code unit but a line terminator.\<close>

definition isLineTerminator :: "jchar \<Rightarrow> bool" where
  "isLineTerminator c = (c = 10 \<or> c = 13 \<or> c = 8232 \<or> c = 8233)"

text \<open>The class \<^verbatim>\<open>[A-z\<close>\<^verbatim>\<open>U+0410-U+044F U+0401 U+0451]\<close> of the source: the range
  \<^verbatim>\<open>A-z\<close> runs from 65 to 122 and so holds the six signs between \<^verbatim>\<open>Z\<close> and
  \<^verbatim>\<open>a\<close> as well.\<close>

definition isLetter :: "jchar \<Rightarrow> bool" where
  "isLetter c = ((65 \<le> c \<and> c \<le> 122) \<or> (1040 \<le> c \<and> c \<le> 1103) \<or> c = 1025 \<or> c = 1105)"

definition isDigit :: "jchar \<Rightarrow> bool" where
  "isDigit c = (48 \<le> c \<and> c \<le> 57)"

text \<open>
  \<^verbatim>\<open>toLowerCase\<close> and \<^verbatim>\<open>toUpperCase\<close>, on the alphabets the dialect is written in: Basic
  Latin, the Latin-1 supplement and the Cyrillic block up to \<^verbatim>\<open>U+045F\<close>, where the case
  of a code unit depends on nothing around it. Code units of other scripts are left as
  they are, which is not what the platform does with their capital letters.
\<close>

definition lowerChar :: "jchar \<Rightarrow> jchar" where
  "lowerChar c =
     (if 65 \<le> c \<and> c \<le> 90 then c + 32
      else if (192 \<le> c \<and> c \<le> 214) \<or> (216 \<le> c \<and> c \<le> 222) then c + 32
      else if 1040 \<le> c \<and> c \<le> 1071 then c + 32
      else if 1024 \<le> c \<and> c \<le> 1039 then c + 80
      else c)"

definition toLowerCase :: "jstring \<Rightarrow> jstring" where
  "toLowerCase s = map lowerChar s"

definition upperChar :: "jchar \<Rightarrow> jstring" where
  "upperChar c =
     (if 97 \<le> c \<and> c \<le> 122 then [c - 32]
      else if (224 \<le> c \<and> c \<le> 246) \<or> (248 \<le> c \<and> c \<le> 254) then [c - 32]
      else if c = 223 then [83, 83]
      else if c = 181 then [924]
      else if c = 255 then [376]
      else if 1072 \<le> c \<and> c \<le> 1103 then [c - 32]
      else if 1104 \<le> c \<and> c \<le> 1119 then [c - 80]
      else [c])"

definition toUpperCase :: "jstring \<Rightarrow> jstring" where
  "toUpperCase s = concat (map upperChar s)"

definition trim :: "jstring \<Rightarrow> jstring" where
  "trim s = rev (dropWhile isSpace (rev (dropWhile isSpace s)))"

text \<open>\<^verbatim>\<open>Array.prototype.join\<close> on strings and \<^verbatim>\<open>String.prototype.split\<close> at a
  separator of one code unit; splitting always yields at least one piece.\<close>

fun join :: "jstring \<Rightarrow> jstring list \<Rightarrow> jstring" where
  "join sep [] = []"
| "join sep [x] = x"
| "join sep (x # y # ys) = x @ sep @ join sep (y # ys)"

fun splitOn :: "jchar \<Rightarrow> jstring \<Rightarrow> jstring list" where
  "splitOn c [] = [[]]"
| "splitOn c (x # xs) =
     (if x = c then [] # splitOn c xs
      else (case splitOn c xs of w # ws \<Rightarrow> (x # w) # ws | [] \<Rightarrow> [[x]]))"

section \<open>Configuration payloads\<close>

text \<open>
  Every setter receives a string and hands it to \<^verbatim>\<open>JSON.parse\<close>. The parser belongs to
  the platform, so the setters take it as a parameter \<open>parse\<close> that yields \<open>None\<close> where
  \<^verbatim>\<open>JSON.parse\<close> throws. A number is kept as the text \<^verbatim>\<open>String\<close> gives for it, an object
  as its properties in enumeration order.
\<close>

datatype json =
    JNull
  | JBool bool
  | JNumber jstring
  | JString jstring
  | JArray "json list"
  | JObject "(jstring \<times> json) list"

datatype error = SyntaxError | TypeError

section \<open>The vocabulary store\<close>

text \<open>
  \<^verbatim>\<open>VanessaGherkinProvider\<close> keeps its dictionaries in plain objects. An object used as
  a dictionary is modelled by the list of its own properties in enumeration order; for the
  steps and the variables, which are enumerated as well as read, there is the prototype
  beside it. The keypairs, the elements and the tables of links are read by name only,
  and of them the own properties alone are modelled. A step is the record
  \<^verbatim>\<open>setStepList\<close> stores, with the three fields \<^verbatim>\<open>updateStepLabels\<close> adds.
\<close>

datatype CompletionItemKind = KindFunction | KindVariable | KindKeyword | KindNumber nat

record IVanessaStep =
  stepFilterText :: jstring
  stepInsertText :: jstring
  stepSortText :: jstring
  stepDocumentation :: jstring
  stepKind :: nat
  stepSection :: jstring

record step =
  head :: "jstring list"
  body :: "jstring list"
  documentation :: jstring
  insertText :: jstring
  sortText :: jstring
  sectionName :: jstring
  kind :: nat
  label :: jstring
  keyword :: jstring

record variable =
  varName :: jstring
  varValue :: jstring

text \<open>
  The patterns of \<^verbatim>\<open>KeywordMatcher\<close> (\<^verbatim>\<open>./matcher\<close>, not among the sources) are
  taken as they are used: a regular expression is the predicate of the lines it matches.
  \<open>regSection\<close> lists the named section patterns in the order of \<^verbatim>\<open>Object.keys\<close>,
  \<open>regStep\<close> is the shape of a step line, and \<open>regImport\<close> gives, for a line the import
  pattern followed by \<^verbatim>\<open>(.+)\<close> matches, the text of its third group.
\<close>

record matcher =
  regSection :: "(jstring \<times> (jstring \<Rightarrow> bool)) list"
  regStep :: "jstring \<Rightarrow> bool"
  regImport :: "jstring \<Rightarrow> jstring option"

record linkRecord =
  linkKey :: jstring
  linkName :: "jstring option"
  linkFile :: "jstring option"
  linkData :: "(jstring \<times> jstring) list option"
  linkColumn :: "jstring option"
  linkTable :: "jstring option"
  linkParam :: "jstring option"

type_synonym linkTables = "(jstring \<times> (jstring \<times> linkRecord) list) list"

record provider =
  soundHint :: jstring
  syntaxMsg :: jstring
  keywordList :: "jstring list list"
  metatags :: "jstring list"
  keypairs :: "(jstring \<times> jstring list) list"
  steps :: "(jstring \<times> step) list"
  elements :: "(jstring \<times> json) list"
  variables :: "(jstring \<times> variable) list"
  stepsPrototype :: "step option"
  variablesPrototype :: "variable option"
  importedFiles :: "(jstring \<times> linkTables) list"
  matcher :: "matcher option"

text \<open>
  Property order of an ordinary object: the keys that are array indices come first, in
  ascending order, then the other keys in the order they were created. Writing to a key
  the object already has keeps its place.
\<close>

fun digitsValue :: "nat \<Rightarrow> jstring \<Rightarrow> nat" where
  "digitsValue acc [] = acc"
| "digitsValue acc (c # cs) = digitsValue (10 * acc + (c - 48)) cs"

definition arrayIndex :: "jstring \<Rightarrow> nat option" where
  "arrayIndex k =
     (if k = [] \<or> \<not> list_all isDigit k then None
      else if hd k = 48 \<and> length k \<noteq> 1 then None
      else if length k > 10 \<or> digitsValue 0 k \<ge> 4294967295 then None
      else Some (digitsValue 0 k))"

fun insertIndexed :: "nat \<Rightarrow> jstring \<Rightarrow> 'v \<Rightarrow> (jstring \<times> 'v) list \<Rightarrow> (jstring \<times> 'v) list" where
  "insertIndexed n k v [] = [(k, v)]"
| "insertIndexed n k v ((k', v') # m) =
     (case arrayIndex k' of
        Some n' \<Rightarrow> if n' < n then (k', v') # insertIndexed n k v m else (k, v) # (k', v') # m
      | None \<Rightarrow> (k, v) # (k', v') # m)"

definition objPut :: "(jstring \<times> 'v) list \<Rightarrow> jstring \<Rightarrow> 'v \<Rightarrow> (jstring \<times> 'v) list" where
  "objPut m k v =
     (if k \<in> fst ` set m then map (\<lambda>(k', v'). if k' = k then (k', v) else (k', v')) m
      else (case arrayIndex k of None \<Rightarrow> m @ [(k, v)] | Some n \<Rightarrow> insertIndexed n k v m))"

definition objGet :: "(jstring \<times> 'v) list \<Rightarrow> jstring \<Rightarrow> 'v option" where
  "objGet m k = map_of m k"

text \<open>
  What a dictionary inherits. A plain object has the prototype \<^verbatim>\<open>Object.prototype\<close>,
  whose properties are functions, none of them enumerable, and the accessor
  \<^verbatim>\<open>__proto__\<close>: reading it gives the prototype of the dictionary, and assigning an object
  to it makes that object the prototype and creates no property. The steps and the
  variables are stored by assignments \<^verbatim>\<open>dictionary[k] = {...}\<close> under names that come from
  payloads, so a step or a variable of the name \<^verbatim>\<open>__proto__\<close> becomes the prototype of
  its dictionary and stays it when the dictionary is cleared: its fields are then read
  through the dictionary, and \<^verbatim>\<open>for ... in\<close> enumerates them after the own keys, those
  left out that an own key hides. In \<open>stepsPrototype\<close> and \<open>variablesPrototype\<close> the value
  \<open>None\<close> stands for \<^verbatim>\<open>Object.prototype\<close>. \<open>objectMethods\<close> lists the functions of
  \<^verbatim>\<open>Object.prototype\<close>, each with the \<^verbatim>\<open>name\<close> it has since ECMAScript 2015.

  \<open>getProperty\<close> is \<^verbatim>\<open>dictionary[k]\<close>. It gives an entry (the own property \<open>k\<close>, or the
  prototype that an assignment put there, for \<^verbatim>\<open>__proto__\<close>), a function of
  \<^verbatim>\<open>Object.prototype\<close> by its name, or another value, of which the truth value is kept:
  a field of the prototype, \<^verbatim>\<open>Object.prototype\<close> itself, or \<^verbatim>\<open>undefined\<close>. The fields of an
  entry are given by \<open>fieldsOf\<close>, each with the truth value of what it holds.
\<close>

definition objectMethods :: "(jstring \<times> jstring) list" where
  "objectMethods =
     [(js ''constructor'', js ''Object''),
      (js ''__defineGetter__'', js ''__defineGetter__''),
      (js ''__defineSetter__'', js ''__defineSetter__''),
      (js ''hasOwnProperty'', js ''hasOwnProperty''),
      (js ''__lookupGetter__'', js ''__lookupGetter__''),
      (js ''__lookupSetter__'', js ''__lookupSetter__''),
      (js ''isPrototypeOf'', js ''isPrototypeOf''),
      (js ''propertyIsEnumerable'', js ''propertyIsEnumerable''),
      (js ''toString'', js ''toString''),
      (js ''valueOf'', js ''valueOf''),
      (js ''toLocaleString'', js ''toLocaleString'')]"

datatype 'v property = Entry 'v | Builtin jstring | Other bool

definition getProperty ::
  "('v \<Rightarrow> (jstring \<times> bool) list) \<Rightarrow> (jstring \<times> 'v) list \<Rightarrow> 'v option \<Rightarrow> jstring
   \<Rightarrow> 'v property" where
  "getProperty fieldsOf own proto k =
     (case objGet own k of
        Some v \<Rightarrow> Entry v
      | None \<Rightarrow>
          (case (case proto of None \<Rightarrow> None | Some r \<Rightarrow> map_of (fieldsOf r) k) of
             Some t \<Rightarrow> Other t
           | None \<Rightarrow>
               if k = js ''__proto__'' then (case proto of None \<Rightarrow> Other True | Some r \<Rightarrow> Entry r)
               else (case map_of objectMethods k of
                       Some f \<Rightarrow> Builtin f
                     | None \<Rightarrow> Other False)))"

definition inheritedKeys ::
  "('v \<Rightarrow> (jstring \<times> bool) list) \<Rightarrow> (jstring \<times> 'v) list \<Rightarrow> 'v option \<Rightarrow> jstring list" where
  "inheritedKeys fieldsOf own proto =
     (case proto of
        None \<Rightarrow> []
      | Some r \<Rightarrow> filter (\<lambda>f. f \<notin> fst ` set own) (map fst (fieldsOf r)))"

definition forInKeys ::
  "('v \<Rightarrow> (jstring \<times> bool) list) \<Rightarrow> (jstring \<times> 'v) list \<Rightarrow> 'v option \<Rightarrow> jstring list" where
  "forInKeys fieldsOf own proto = map fst own @ inheritedKeys fieldsOf own proto"

definition truthyProperty :: "'v property \<Rightarrow> bool" where
  "truthyProperty p = (case p of Entry v \<Rightarrow> True | Builtin f \<Rightarrow> True | Other t \<Rightarrow> t)"

section \<open>Words, keywords and phrase keys\<close>

text \<open>
  \<^verbatim>\<open>splitWords\<close> collects the matches of one global regular expression with five
  alternatives, tried in this order where a match may start: a double-quoted string with
  backslash escapes, a single-quoted one, \<^verbatim>\<open><...>\<close>, a run of letters, a run of
  code units that are neither letters nor white space. \<open>quotedTail q\<close> reads what follows an
  opening quote \<open>q\<close> and gives the number of code units up to and including the closing
  quote; \<open>untilChar\<close> does the same for the plain \<^verbatim>\<open>[^>]*>\<close>.
\<close>

fun quotedTail :: "jchar \<Rightarrow> jstring \<Rightarrow> nat option" where
  "quotedTail q [] = None"
| "quotedTail q [c] = (if c = q then Some 1 else None)"
| "quotedTail q (c # d # ds) =
     (if c = q then Some 1
      else if c = 92 then
        (if isLineTerminator d then None else map_option (\<lambda>n. n + 2) (quotedTail q ds))
      else map_option Suc (quotedTail q (d # ds)))"

fun untilChar :: "jchar \<Rightarrow> jstring \<Rightarrow> nat option" where
  "untilChar q [] = None"
| "untilChar q (c # cs) = (if c = q then Some 1 else map_option Suc (untilChar q cs))"

definition wordAt :: "jstring \<Rightarrow> nat option" where
  "wordAt s =
     (case s of
        [] \<Rightarrow> None
      | c # cs \<Rightarrow>
          (case (if c = 34 then quotedTail 34 cs else None) of
             Some n \<Rightarrow> Some (Suc n)
           | None \<Rightarrow>
          (case (if c = 39 then quotedTail 39 cs else None) of
             Some n \<Rightarrow> Some (Suc n)
           | None \<Rightarrow>
          (case (if c = 60 then untilChar 62 cs else None) of
             Some n \<Rightarrow> Some (Suc n)
           | None \<Rightarrow>
          (if isLetter c then Some (length (takeWhile isLetter s))
           else if \<not> isSpace c then Some (length (takeWhile (\<lambda>x. \<not> isLetter x \<and> \<not> isSpace x) s))
           else None)))))"

lemma wordAt_pos: "wordAt s = Some n \<Longrightarrow> 0 < n"
  by (cases s) (auto simp: wordAt_def split: option.splits if_splits)

function splitWords :: "jstring \<Rightarrow> jstring list" where
  "splitWords s =
     (if s = [] then []
      else (case wordAt s of
              None \<Rightarrow> splitWords (tl s)
            | Some n \<Rightarrow> take n s # splitWords (drop n s)))"
  by pat_completeness auto
termination
proof (relation "measure length")
  show "wf (measure length)" by simp
next
  fix s :: jstring
  assume "s \<noteq> []"
  then show "(tl s, s) \<in> measure length" by (cases s) auto
next
  fix s :: jstring and n
  assume "s \<noteq> []" and "wordAt s = Some n"
  then show "(drop n s, s) \<in> measure length"
    using wordAt_pos [of s n] by (cases s) auto
qed

declare splitWords.simps [simp del]

text \<open>
  \<^verbatim>\<open>findKeyword\<close>: the first keyword of the list every word of which is matched. The test
  \<^verbatim>\<open>words[i] && w == words[i].toLowerCase()\<close> fails where the line has no word at
  \<open>i\<close> and where that word is the empty string.
\<close>

fun everyWord :: "jstring list \<Rightarrow> jstring list \<Rightarrow> bool" where
  "everyWord [] words = True"
| "everyWord (w # item) [] = False"
| "everyWord (w # item) (x # words) = (x \<noteq> [] \<and> w = toLowerCase x \<and> everyWord item words)"

definition findKeyword :: "provider \<Rightarrow> jstring list \<Rightarrow> jstring list option" where
  "findKeyword P words =
     (if length words = 0 then None else find (\<lambda>item. everyWord item words) (keywordList P))"

text \<open>
  \<^verbatim>\<open>filterWords\<close> drops the words of the leading keyword and everything from the first
  word on that starts a comment. The test is \<^verbatim>\<open>/^[\s]*[#|//]/\<close>, a character class:
  it holds for a word that starts, after white space, with \<^verbatim>\<open>#\<close>, \<^verbatim>\<open>|\<close> or \<^verbatim>\<open>/\<close>.
\<close>

definition startsComment :: "jstring \<Rightarrow> bool" where
  "startsComment w =
     (case dropWhile isSpace w of [] \<Rightarrow> False | c # cs \<Rightarrow> c = 35 \<or> c = 124 \<or> c = 47)"

fun filterLoop :: "nat \<Rightarrow> bool \<Rightarrow> jstring list \<Rightarrow> jstring list" where
  "filterLoop n s [] = []"
| "filterLoop n s (w # ws) =
     (if 0 < n then filterLoop (n - 1) s ws
      else if s \<and> \<not> startsComment w then w # filterLoop 0 s ws
      else filterLoop 0 False ws)"

definition filterWords :: "provider \<Rightarrow> jstring list \<Rightarrow> jstring list" where
  "filterWords P words =
     (case findKeyword P words of
        None \<Rightarrow> filterLoop 0 True words
      | Some kw \<Rightarrow> filterLoop (length kw) True words)"

definition key :: "jstring list \<Rightarrow> jstring" where
  "key words =
     join (js '' '') (map toLowerCase (filter (\<lambda>w. w \<noteq> [] \<and> list_all isLetter w) words))"

section \<open>setKeywords\<close>

text \<open>
  \<^verbatim>\<open>setKeywords\<close> empties the keyword array, then parses the payload, maps
  \<^verbatim>\<open>toLowerCase\<close> over it, splits every phrase at the blanks, and sorts the array by
  descending number of words (\<^verbatim>\<open>Array.prototype.sort\<close> is stable). An exception leaves
  the provider as it is at that moment, so the setter gives the provider back in any case,
  with the exception if there is one. \<^verbatim>\<open>initTokenizer\<close> rebuilds the highlighter of the
  editor and touches none of the dictionaries.
\<close>

fun lowerAll :: "json list \<Rightarrow> error + jstring list" where
  "lowerAll [] = Inr []"
| "lowerAll (JString w # ws) =
     (case lowerAll ws of Inl e \<Rightarrow> Inl e | Inr rest \<Rightarrow> Inr (toLowerCase w # rest))"
| "lowerAll (w # ws) = Inl TypeError"

definition byLengthDesc :: "jstring list list \<Rightarrow> jstring list list" where
  "byLengthDesc ks = sort_key (\<lambda>k. - int (length k)) ks"

definition setKeywords ::
  "(jstring \<Rightarrow> json option) \<Rightarrow> jstring \<Rightarrow> provider \<Rightarrow> error option \<times> provider" where
  "setKeywords parse arg P =
     (let P1 = P\<lparr>keywordList := []\<rparr> in
      case parse arg of
        None \<Rightarrow> (Some SyntaxError, P1)
      | Some (JArray ws) \<Rightarrow>
          (case lowerAll ws of
             Inl e \<Rightarrow> (Some e, P1)
           | Inr list \<Rightarrow>
               (None, P1\<lparr>keywordList := byLengthDesc (keywordList P1 @ map (splitOn 32) list)\<rparr>))
      | Some other \<Rightarrow> (Some TypeError, P1))"

section \<open>The line classifier\<close>

datatype VAToken = Empty | Section | Operator | Comment | Multiline | Instruction | Parameter

text \<open>
  \<^verbatim>\<open>getToken\<close> tests five regular expressions in turn, all anchored at the start of
  the line and skipping white space. The fourth is again the class \<^verbatim>\<open>[#|//]\<close>.
\<close>

definition startsWith :: "jstring \<Rightarrow> jstring \<Rightarrow> bool" where
  "startsWith p s = (take (length p) s = p)"

definition getToken :: "jstring \<Rightarrow> VAToken" where
  "getToken text =
     (let rest = dropWhile isSpace text in
      if rest = [] then Empty
      else if startsWith (js ''@'') rest then Instruction
      else if startsWith (js ''|'') rest then Parameter
      else if hd rest = 35 \<or> hd rest = 124 \<or> hd rest = 47 then Comment
      else if startsWith (js ''\"\"\"'') rest then Multiline
      else Operator)"

section \<open>The editor's side: text models, ranges and markers\<close>

text \<open>
  A text model of the editor is taken by the methods the provider calls on it; their
  results are whatever the editor gives. \<open>findMatches\<close> stands for
  \<^verbatim>\<open>model.findMatches(source, scope, true, false, null, false)\<close> and yields the ranges
  of the matches, \<open>optionsTabSize\<close> for \<^verbatim>\<open>model.getOptions().tabSize\<close>.
\<close>

record IRange =
  startLineNumber :: nat
  startColumn :: int
  endLineNumber :: nat
  endColumn :: int

record Position =
  lineNumber :: nat
  column :: int

datatype MarkerSeverity = Hint | Info | Warning | Error

record IMarkerData = IRange +
  severity :: MarkerSeverity
  message :: jstring

record ITextModel =
  uri :: jstring
  getModeId :: jstring
  getLineCount :: nat
  getLineContent :: "nat \<Rightarrow> jstring"
  getLineMinColumn :: "nat \<Rightarrow> int"
  getLineMaxColumn :: "nat \<Rightarrow> int"
  getLineFirstNonWhitespaceColumn :: "nat \<Rightarrow> int"
  getLineLastNonWhitespaceColumn :: "nat \<Rightarrow> int"
  getValueInRange :: "IRange \<Rightarrow> jstring"
  findMatches :: "jstring \<Rightarrow> IRange \<Rightarrow> IRange list"
  optionsTabSize :: nat

text \<open>The markers the editor holds, by model and owner;
  \<^verbatim>\<open>monaco.editor.setModelMarkers(model, owner, markers)\<close> replaces one entry.\<close>

type_synonym markerStore = "jstring \<times> jstring \<Rightarrow> IMarkerData list"

definition setModelMarkers ::
  "ITextModel \<Rightarrow> jstring \<Rightarrow> IMarkerData list \<Rightarrow> markerStore \<Rightarrow> markerStore" where
  "setModelMarkers model owner markers store = store((uri model, owner) := markers)"

section \<open>Sections\<close>

text \<open>
  \<^verbatim>\<open>isSection(text)\<close> builds a fresh expression from the pattern stored under the empty
  name; where no such pattern is stored, \<^verbatim>\<open>new RegExp(undefined)\<close> matches every line.
  \<^verbatim>\<open>getSection\<close> gives the first non-empty name whose pattern matches. Both read
  \<^verbatim>\<open>this.matcher.reg\<close> and throw a \<^verbatim>\<open>TypeError\<close> while no matcher is set.
\<close>

definition isSection :: "provider \<Rightarrow> jstring \<Rightarrow> error + bool" where
  "isSection P line =
     (case matcher P of
        None \<Rightarrow> Inl TypeError
      | Some m \<Rightarrow> (case objGet (regSection m) [] of None \<Rightarrow> Inr True | Some r \<Rightarrow> Inr (r line)))"

definition getSection :: "provider \<Rightarrow> jstring \<Rightarrow> error + jstring option" where
  "getSection P line =
     (case matcher P of
        None \<Rightarrow> Inl TypeError
      | Some m \<Rightarrow>
          Inr (case filter (\<lambda>(k, r). k \<noteq> [] \<and> r line) (regSection m) of
                 [] \<Rightarrow> None
               | (k, r) # res \<Rightarrow> Some k))"

section \<open>Steps\<close>

text \<open>
  A placeholder is a word that matches \<^verbatim>\<open>/^"[^"]*"$|^'[^']*'$|^<[^<]*>$/\<close>.
\<close>

definition isParam :: "jstring \<Rightarrow> bool" where
  "isParam w =
     (2 \<le> length w \<and>
      ((hd w = 34 \<and> last w = 34 \<and> 34 \<notin> set (butlast (tl w))) \<or>
       (hd w = 39 \<and> last w = 39 \<and> 39 \<notin> set (butlast (tl w))) \<or>
       (hd w = 60 \<and> last w = 62 \<and> 60 \<notin> set (butlast (tl w)))))"

text \<open>\<^verbatim>\<open>String(v)\<close> and the truth value of \<open>v\<close>, for the values \<^verbatim>\<open>JSON.parse\<close> gives.
  An array prints its elements separated by commas, \<^verbatim>\<open>null\<close> among them as nothing.\<close>

fun jsString :: "json \<Rightarrow> jstring" where
  "jsString JNull = js ''null''"
| "jsString (JBool b) = (if b then js ''true'' else js ''false'')"
| "jsString (JNumber s) = s"
| "jsString (JString s) = s"
| "jsString (JArray vs) = join (js '','') (map (\<lambda>v. if v = JNull then [] else jsString v) vs)"
| "jsString (JObject kvs) = js ''[object Object]''"

fun truthy :: "json \<Rightarrow> bool" where
  "truthy JNull = False"
| "truthy (JBool b) = b"
| "truthy (JNumber s) = (s \<noteq> js ''0'')"
| "truthy (JString s) = (s \<noteq> [])"
| "truthy (JArray vs) = True"
| "truthy (JObject kvs) = True"

text \<open>
  The steps as a dictionary. A step object has seven fields when it is stored; the two
  arrays are true, a string is true unless empty, the number unless nought.
\<close>

definition stepFields :: "step \<Rightarrow> (jstring \<times> bool) list" where
  "stepFields r =
     [(js ''head'', True), (js ''body'', True), (js ''documentation'', documentation r \<noteq> []),
      (js ''insertText'', insertText r \<noteq> []), (js ''sortText'', sortText r \<noteq> []),
      (js ''section'', sectionName r \<noteq> []), (js ''kind'', kind r \<noteq> 0)]"

definition stepAt :: "provider \<Rightarrow> jstring \<Rightarrow> step property" where
  "stepAt P k = getProperty stepFields (steps P) (stepsPrototype P) k"

definition stepKeys :: "provider \<Rightarrow> jstring list" where
  "stepKeys P = forInKeys stepFields (steps P) (stepsPrototype P)"

text \<open>\<^verbatim>\<open>updateStepLabels\<close> recomputes label, keyword and insert text of every step from
  its head, with the element names substituted into the placeholders. The loop is a
  \<^verbatim>\<open>for ... in\<close>: after the own keys it comes to the inherited ones, if there are any,
  and \<^verbatim>\<open>e.head.map\<close> throws a \<^verbatim>\<open>TypeError\<close> at the first of them, where \<^verbatim>\<open>e\<close> is a
  field of the prototype and has no head.\<close>

definition elementWord :: "provider \<Rightarrow> jstring \<Rightarrow> jstring" where
  "elementWord P word =
     (if \<not> isParam word then word
      else (case objGet (elements P) (toLowerCase (butlast (tl word))) of
              None \<Rightarrow> word
            | Some elem \<Rightarrow>
                if \<not> truthy elem then word else [hd word] @ jsString elem @ [last word]))"

definition relabel :: "provider \<Rightarrow> step \<Rightarrow> step" where
  "relabel P e =
     (let words = map (elementWord P) (head e);
          n = (case findKeyword P words of None \<Rightarrow> 0 | Some kw \<Rightarrow> length kw);
          lbl = join (js '' '') (drop n words)
      in e\<lparr>label := lbl,
           keyword := join (js '' '') (take n words),
           insertText := lbl @ (if body e \<noteq> [] then [10] @ join [10] (body e) else [])\<rparr>)"

definition updateStepLabels :: "provider \<Rightarrow> error option \<times> provider" where
  "updateStepLabels P =
     (if inheritedKeys stepFields (steps P) (stepsPrototype P) = [] then None else Some TypeError,
      P\<lparr>steps := map (\<lambda>(k, e). (k, relabel P e)) (steps P)\<rparr>)"

text \<open>
  \<^verbatim>\<open>setStepList\<close>: the payload is taken as \<^verbatim>\<open>JSON.parse\<close> types it, a list of
  \<^verbatim>\<open>IVanessaStep\<close>. The first line of the insert text is the head, its phrase key the
  name the step is stored under; a later step with the same key replaces the earlier one,
  and a step with the key \<^verbatim>\<open>__proto__\<close> becomes the prototype of the dictionary.
  Label and keyword are set by \<^verbatim>\<open>updateStepLabels\<close> before the setter returns.
  \<^verbatim>\<open>VanessaEditor.checkAllSyntax\<close>, called last, belongs to the editor.
\<close>

definition addStep :: "provider \<Rightarrow> IVanessaStep \<Rightarrow> provider" where
  "addStep P e =
     (let lines = splitOn 10 (stepInsertText e);
          hd_words = splitWords (hd lines);
          k = key (filterWords P hd_words);
          stp = \<lparr>head = hd_words, body = tl lines, documentation = stepDocumentation e,
                 insertText = stepInsertText e, sortText = stepSortText e,
                 sectionName = stepSection e, kind = stepKind e, label = [], keyword = []\<rparr>
      in if k = js ''__proto__'' then P\<lparr>stepsPrototype := Some stp\<rparr>
         else P\<lparr>steps := objPut (steps P) k stp\<rparr>)"

definition setStepList ::
  "(jstring \<Rightarrow> IVanessaStep list option) \<Rightarrow> jstring \<Rightarrow> bool \<Rightarrow> provider \<Rightarrow> error option \<times> provider" where
  "setStepList parse list clear P =
     (let P1 = (if clear then P\<lparr>steps := []\<rparr> else P) in
      case parse list of
        None \<Rightarrow> (Some SyntaxError, P1)
      | Some es \<Rightarrow> updateStepLabels (foldl addStep P1 es))"

section \<open>setVariables\<close>

text \<open>
  \<^verbatim>\<open>for (let key in obj)\<close> runs over the properties of an object, over the indices of an
  array or a string, and over nothing for the other values.
\<close>

fun decimal :: "nat \<Rightarrow> jstring" where
  "decimal n = (if n < 10 then [48 + n] else decimal (n div 10) @ [48 + n mod 10])"

declare decimal.simps [simp del]

fun forIn :: "json \<Rightarrow> (jstring \<times> json) list" where
  "forIn (JObject kvs) = kvs"
| "forIn (JArray vs) = zip (map decimal [0..<length vs]) vs"
| "forIn (JString s) = zip (map decimal [0..<length s]) (map (\<lambda>c. JString [c]) s)"
| "forIn v = []"

text \<open>
  The variables as a dictionary: a variable object has the two fields \<^verbatim>\<open>name\<close> and
  \<^verbatim>\<open>value\<close>, both strings. A variable whose name in lower case is \<^verbatim>\<open>__proto__\<close> becomes
  the prototype of the dictionary. \<open>variableKeys\<close> are the keys of \<^verbatim>\<open>for ... in\<close>.
\<close>

definition variableFields :: "variable \<Rightarrow> (jstring \<times> bool) list" where
  "variableFields r = [(js ''name'', varName r \<noteq> []), (js ''value'', varValue r \<noteq> [])]"

definition variableAt :: "provider \<Rightarrow> jstring \<Rightarrow> variable property" where
  "variableAt P k = getProperty variableFields (variables P) (variablesPrototype P) k"

definition variableKeys :: "provider \<Rightarrow> jstring list" where
  "variableKeys P = forInKeys variableFields (variables P) (variablesPrototype P)"

definition putVariable :: "provider \<Rightarrow> jstring \<times> json \<Rightarrow> provider" where
  "putVariable P kv =
     (let k = toLowerCase (fst kv);
          v = \<lparr>varName = fst kv, varValue = jsString (snd kv)\<rparr>
      in if k = js ''__proto__'' then P\<lparr>variablesPrototype := Some v\<rparr>
         else P\<lparr>variables := objPut (variables P) k v\<rparr>)"

definition setVariables ::
  "(jstring \<Rightarrow> json option) \<Rightarrow> jstring \<Rightarrow> bool \<Rightarrow> provider \<Rightarrow> error option \<times> provider" where
  "setVariables parse values clear P =
     (let P1 = (if clear then P\<lparr>variables := []\<rparr> else P) in
      case parse values of
        None \<Rightarrow> (Some SyntaxError, P1)
      | Some obj \<Rightarrow> updateStepLabels (foldl putVariable P1 (forIn obj)))"

section \<open>setKeypairs\<close>

text \<open>
  \<^verbatim>\<open>setKeypairs\<close> parses first and clears afterwards. \<^verbatim>\<open>Object.keys\<close> throws for
  \<^verbatim>\<open>null\<close>, when the map is already empty; a property whose value is not an array of
  strings stops the loop with a
  \<^verbatim>\<open>TypeError\<close>, after the pairs before it were stored.
\<close>

fun putPairs :: "provider \<Rightarrow> (jstring \<times> json) list \<Rightarrow> error option \<times> provider" where
  "putPairs P [] = (None, P)"
| "putPairs P ((k, JArray ws) # rest) =
     (case lowerAll ws of
        Inl e \<Rightarrow> (Some e, P)
      | Inr list \<Rightarrow> putPairs (P\<lparr>keypairs := objPut (keypairs P) (toLowerCase k) list\<rparr>) rest)"
| "putPairs P ((k, v) # rest) = (Some TypeError, P)"

definition setKeypairs ::
  "(jstring \<Rightarrow> json option) \<Rightarrow> jstring \<Rightarrow> provider \<Rightarrow> error option \<times> provider" where
  "setKeypairs parse arg P =
     (case parse arg of
        None \<Rightarrow> (Some SyntaxError, P)
      | Some JNull \<Rightarrow> (Some TypeError, P\<lparr>keypairs := []\<rparr>)
      | Some pairs \<Rightarrow> putPairs (P\<lparr>keypairs := []\<rparr>) (forIn pairs))"

section \<open>Syntax checking\<close>

text \<open>
  \<^verbatim>\<open>lineSyntaxError\<close>. The words of the keyword and the trailing comment are dropped as
  in \<^verbatim>\<open>filterWords\<close>; a line is in order when it is not a step line, has no keyword or
  no phrase, when \<^verbatim>\<open>this.steps[key]\<close> is true for its phrase key, or when it is true for
  the phrase without its last word and the last word, in lower case, is in the keyword's
  keypair list. What is found in the steps is true for a step, and also for a function
  every object inherits and for a field of the prototype that is not empty.
\<close>

definition lineSyntaxError :: "provider \<Rightarrow> jstring \<Rightarrow> error + bool" where
  "lineSyntaxError P line =
     (case matcher P of
        None \<Rightarrow> Inl TypeError
      | Some m \<Rightarrow>
          if \<not> regStep m line then Inr False
          else
            (case findKeyword P (splitWords line) of
               None \<Rightarrow> Inr False
             | Some kw \<Rightarrow>
                 (let words = filterLoop (length kw) True (splitWords line) in
                  if key words = [] then Inr False
                  else if truthyProperty (stepAt P (key words)) then Inr False
                  else
                    (case objGet (keypairs P) (join (js '' '') kw) of
                       None \<Rightarrow> Inr True
                     | Some keypair \<Rightarrow>
                         (let lastnum = length words - 1;
                              lastword = toLowerCase (words ! lastnum);
                              stp = take lastnum words
                          in Inr (\<not> (truthyProperty (stepAt P (key stp)) \<and>
                                      (\<exists>w\<in>set keypair. w = lastword))))))))"

text \<open>The two line tests of \<^verbatim>\<open>checkSyntax\<close>: \<^verbatim>\<open>/^\s*""".*$/\<close> and
  \<^verbatim>\<open>/^\s*(#|@|\/\/)/\<close>.\<close>

definition isMultilineDelimiter :: "jstring \<Rightarrow> bool" where
  "isMultilineDelimiter line =
     (let rest = dropWhile isSpace line
      in startsWith (js ''\"\"\"'') rest \<and> \<not> (\<exists>c\<in>set (drop 3 rest). isLineTerminator c))"

definition isCommentOrTag :: "jstring \<Rightarrow> bool" where
  "isCommentOrTag line =
     (let rest = dropWhile isSpace line
      in startsWith (js ''#'') rest \<or> startsWith (js ''@'') rest \<or> startsWith (js ''//'') rest)"

definition syntaxProblem :: "provider \<Rightarrow> ITextModel \<Rightarrow> nat \<Rightarrow> IMarkerData" where
  "syntaxProblem P model n =
     \<lparr>startLineNumber = n,
      startColumn = getLineFirstNonWhitespaceColumn model n,
      endLineNumber = n,
      endColumn = getLineLastNonWhitespaceColumn model n,
      severity = Error,
      message = syntaxMsg P\<rparr>"

function checkLines ::
  "provider \<Rightarrow> ITextModel \<Rightarrow> nat \<Rightarrow> bool \<Rightarrow> jstring option \<Rightarrow> IMarkerData list
   \<Rightarrow> error + IMarkerData list" where
  "checkLines P model n multiline sect problems =
     (if n \<le> getLineCount model then
        (let line = getLineContent model n in
         if isMultilineDelimiter line then
           checkLines P model (Suc n) (\<not> multiline) sect problems
         else if multiline then checkLines P model (Suc n) multiline sect problems
         else if isCommentOrTag line then checkLines P model (Suc n) multiline sect problems
         else
           (case isSection P line of
              Inl e \<Rightarrow> Inl e
            | Inr True \<Rightarrow>
                (case getSection P line of
                   Inl e \<Rightarrow> Inl e
                 | Inr sect' \<Rightarrow> checkLines P model (Suc n) multiline sect' problems)
            | Inr False \<Rightarrow>
                if sect = Some (js ''feature'') then
                  checkLines P model (Suc n) multiline sect problems
                else
                  (case lineSyntaxError P line of
                     Inl e \<Rightarrow> Inl e
                   | Inr True \<Rightarrow>
                       checkLines P model (Suc n) multiline sect
                         (problems @ [syntaxProblem P model n])
                   | Inr False \<Rightarrow> checkLines P model (Suc n) multiline sect problems)))
      else Inr problems)"
  by pat_completeness auto
termination
  by (relation "measure (\<lambda>(P, model, n, multiline, sect, problems). Suc (getLineCount model) - n)")
     auto

declare checkLines.simps [simp del]

text \<open>\<^verbatim>\<open>checkSyntax\<close> returns at once for a model of another language; otherwise it
  replaces the markers of the owner \<^verbatim>\<open>syntax\<close> by the problems it found. An exception
  reaches the caller before any marker is set.\<close>

definition checkSyntax :: "provider \<Rightarrow> ITextModel \<Rightarrow> markerStore \<Rightarrow> error + markerStore" where
  "checkSyntax P model store =
     (if getModeId model \<noteq> js ''turbo-gherkin'' then Inr store
      else (case checkLines P model 1 False (Some []) [] of
              Inl e \<Rightarrow> Inl e
            | Inr problems \<Rightarrow> Inr (setModelMarkers model (js ''syntax'') problems store)))"

section \<open>Completion\<close>

record CompletionItem =
  ciLabel :: jstring
  ciKind :: CompletionItemKind
  ciDetail :: "jstring option"
  ciDocumentation :: "jstring option"
  ciSortText :: "jstring option"
  ciInsertText :: jstring
  ciFilterText :: "jstring option"
  ciRange :: IRange

record CompletionList =
  suggestions :: "CompletionItem list"

text \<open>\<^verbatim>\<open>empty(position)\<close>: a list of one item with empty label and empty insert text,
  over the column before the cursor.\<close>

definition empty :: "Position \<Rightarrow> CompletionList" where
  "empty position =
     \<lparr>suggestions =
        [\<lparr>ciLabel = [], ciKind = KindFunction, ciDetail = None, ciDocumentation = None,
          ciSortText = None, ciInsertText = [], ciFilterText = None,
          ciRange = \<lparr>startLineNumber = lineNumber position, startColumn = column position - 1,
                     endLineNumber = lineNumber position, endColumn = column position\<rparr>\<rparr>]\<rparr>"

text \<open>The source of the placeholder expression \<^verbatim>\<open>/"[^"]*"|'[^']*'|<[^\s"']*>/\<close>, handed
  to the editor's search, and the test \<^verbatim>\<open>/^.\$.+\$.$/\<close> for a name wrapped in dollar
  signs.\<close>

definition placeholderSource :: jstring where
  "placeholderSource =
     [34, 91, 94, 34, 93, 42, 34, 124, 39, 91, 94, 39, 93, 42, 39, 124,
      60, 91, 94, 92, 115, 34, 39, 93, 42, 62]"

definition isSigil :: "jstring \<Rightarrow> bool" where
  "isSigil part =
     (5 \<le> length part \<and> part ! 1 = 36 \<and> part ! (length part - 2) = 36 \<and>
      \<not> (\<exists>c\<in>set part. isLineTerminator c))"

text \<open>The matches of \<^verbatim>\<open>/[^\s]+/g\<close>: the maximal runs without white space.\<close>

fun nonSpaceRuns :: "jstring \<Rightarrow> jstring \<Rightarrow> jstring list" where
  "nonSpaceRuns cur [] = (if cur = [] then [] else [cur])"
| "nonSpaceRuns cur (c # cs) =
     (if isSpace c then (if cur = [] then nonSpaceRuns [] cs else cur # nonSpaceRuns [] cs)
      else nonSpaceRuns (cur @ [c]) cs)"

text \<open>
  The name and the value a template prints for \<^verbatim>\<open>item.name\<close> and \<^verbatim>\<open>item.value\<close>: those of
  a variable; for a function its name and \<^verbatim>\<open>undefined\<close>; for a string, as the fields of a
  prototype are, and for \<^verbatim>\<open>Object.prototype\<close> twice \<^verbatim>\<open>undefined\<close>.
\<close>

definition printed :: "variable property \<Rightarrow> variable" where
  "printed p =
     (case p of
        Entry v \<Rightarrow> v
      | Builtin f \<Rightarrow> \<lparr>varName = f, varValue = js ''undefined''\<rparr>
      | Other t \<Rightarrow> \<lparr>varName = js ''undefined'', varValue = js ''undefined''\<rparr>)"

text \<open>The suggestion for one key of the variables: \<^verbatim>\<open>this.variables[name]\<close> is a variable
  for an own key and a string for an inherited one.\<close>

definition variableItem :: "jstring \<Rightarrow> IRange \<Rightarrow> variable \<Rightarrow> CompletionItem" where
  "variableItem var wordRange item =
     (let Q1 = take 1 var;
          Q2 = (if var = [] then [] else [last var]);
          S = (if isSigil var then js ''$'' else [])
      in \<lparr>ciLabel = js ''\"'' @ S @ varName item @ S @ js ''\" = '' @ varValue item,
          ciKind = KindVariable, ciDetail = None, ciDocumentation = None, ciSortText = None,
          ciInsertText = Q1 @ S @ varName item @ S @ Q2,
          ciFilterText = Some (var @ S @ varName item @ S),
          ciRange = wordRange\<rparr>)"

definition stepKindOf :: "step \<Rightarrow> CompletionItemKind" where
  "stepKindOf e = (if kind e \<noteq> 0 then KindNumber (kind e) else KindFunction)"

definition stepItem :: "jstring \<Rightarrow> jstring \<Rightarrow> IRange \<Rightarrow> step \<Rightarrow> CompletionItem" where
  "stepItem prefix filterText rng e =
     \<lparr>ciLabel = label e, ciKind = stepKindOf e, ciDetail = Some (sectionName e),
      ciDocumentation = Some (documentation e), ciSortText = Some (sortText e),
      ciInsertText = prefix @ js '' '' @ insertText e @ [10],
      ciFilterText = Some filterText, ciRange = rng\<rparr>"

definition metatagItem :: "IRange \<Rightarrow> jstring \<Rightarrow> CompletionItem" where
  "metatagItem rng word =
     \<lparr>ciLabel = word, ciKind = KindKeyword, ciDetail = None, ciDocumentation = None,
      ciSortText = None, ciInsertText = word @ [10], ciFilterText = None, ciRange = rng\<rparr>"

text \<open>\<^verbatim>\<open>provideCompletionItems\<close>. In a placeholder every key of the variables gives a
  suggestion. Elsewhere the steps are enumerated, and those with a documentation give
  one each; what an inherited key gives has none.\<close>

definition provideCompletionItems :: "provider \<Rightarrow> ITextModel \<Rightarrow> Position \<Rightarrow> CompletionList" where
  "provideCompletionItems P model position =
     (let n = lineNumber position;
          line = \<lparr>startLineNumber = n, startColumn = getLineMinColumn model n,
                  endLineNumber = n, endColumn = getLineMaxColumn model n\<rparr>;
          inside = filter (\<lambda>r. startColumn r \<le> column position \<and> column position \<le> endColumn r)
                     (findMatches model placeholderSource line)
      in if inside \<noteq> [] then
           (let wordRange = last inside; var = getValueInRange model wordRange
            in \<lparr>suggestions =
                  map (\<lambda>nm. variableItem var wordRange (printed (variableAt P nm))) (variableKeys P)\<rparr>)
         else
           (let maxColumn = getLineLastNonWhitespaceColumn model n in
            if maxColumn \<noteq> 0 \<and> column position < maxColumn then empty position
            else
              (let minColumn = getLineFirstNonWhitespaceColumn model n;
                   words = nonSpaceRuns [] (getLineContent model n);
                   rng = \<lparr>startLineNumber = n,
                            startColumn = (if minColumn \<noteq> 0 then minColumn else column position),
                            endLineNumber = n,
                            endColumn = (if maxColumn \<noteq> 0 then maxColumn else column position)\<rparr>;
                   documented =
                     concat (map (\<lambda>k. case stepAt P k of
                                         Entry e \<Rightarrow> if documentation e \<noteq> [] then [(k, e)] else []
                                       | Builtin f \<Rightarrow> []
                                       | Other t \<Rightarrow> [])
                               (stepKeys P))
               in case findKeyword P words of
                    Some kw \<Rightarrow>
                      (let keytext0 = join (js '' '') kw;
                           keytext = toUpperCase (take 1 keytext0) @ drop 1 keytext0
                       in \<lparr>suggestions =
                             map (\<lambda>(k, e). stepItem keytext (keytext @ js '' '' @ k) rng e)
                               documented\<rparr>)
                  | None \<Rightarrow>
                      \<lparr>suggestions =
                         map (metatagItem rng) (metatags P) @
                         map (\<lambda>(k, e). stepItem (keyword e) k rng e) documented\<rparr>)))"

section \<open>Hover\<close>








section \<open>Quick fixes\<close>

text \<open>
  The similarity of two phrase keys comes from the package \<^verbatim>\<open>jaro-winkler\<close> and the
  keyword expression of \<^verbatim>\<open>addQuickFix\<close> is built at run time; both are parameters here:
  \<open>distance\<close> gives the score, and \<open>regexpMatch source subject\<close> gives the text
  \<^verbatim>\<open>subject.match(new RegExp(source))\<close> matches first, if any, or the
  \<^verbatim>\<open>SyntaxError\<close> of a source that is no expression.
\<close>

record candidate =
  candKey :: jstring
  candSum :: real
  candError :: IMarkerData
  candRange :: IRange
  candWords :: "jstring list"

record CodeAction =
  title :: jstring
  diagnostics :: "IMarkerData list"
  actionKind :: jstring
  editResource :: jstring
  editRange :: IRange
  editText :: jstring
  isPreferred :: bool

definition bySumDesc :: "candidate list \<Rightarrow> candidate list" where
  "bySumDesc cs = sort_key (\<lambda>c. - candSum c) cs"

definition addQuickFix ::
  "provider \<Rightarrow> (jstring \<Rightarrow> jstring \<Rightarrow> error + jstring option) \<Rightarrow> (jstring \<Rightarrow> jstring \<Rightarrow> real)
   \<Rightarrow> ITextModel \<Rightarrow> candidate list \<Rightarrow> IMarkerData \<Rightarrow> error + candidate list" where
  "addQuickFix P regexpMatch distance model list err =
     (let range0 = \<lparr>startLineNumber = startLineNumber err, startColumn = 1,
                    endLineNumber = endLineNumber err, endColumn = endColumn err\<rparr>;
          val = getValueInRange model range0;
          words = splitWords val
      in case findKeyword P words of
           None \<Rightarrow> Inr list
         | Some kw \<Rightarrow>
             (let regexp = [94, 91, 92, 115, 93, 42] @
                           concat (map (\<lambda>w. w @ [91, 92, 115, 93, 43]) kw)
              in case regexpMatch regexp (toLowerCase val) of
                   Inl e \<Rightarrow> Inl e
                 | Inr found \<Rightarrow>
                     (let rng = (case found of
                                     None \<Rightarrow> range0
                                   | Some m \<Rightarrow> range0\<lparr>startColumn := int (length m) + 1\<rparr>);
                          line = key (filterWords P words)
                      in Inr (bySumDesc
                                (list @
                                 map (\<lambda>k. \<lparr>candKey = k, candSum = distance line k,
                                           candError = err, candRange = rng,
                                           candWords = words\<rparr>)
                                   (filter (\<lambda>k. distance line k > 7 / 10) (stepKeys P)))))))"

text \<open>\<^verbatim>\<open>replaceParams\<close>: the placeholders of the step are replaced, in order, by the
  placeholders of the line, as long as the line has any left.\<close>

fun fillParams :: "jstring list \<Rightarrow> jstring list \<Rightarrow> jstring list" where
  "fillParams [] params = []"
| "fillParams (w # ws) params =
     (if isParam w \<and> params \<noteq> [] then hd params # fillParams ws (tl params)
      else w # fillParams ws params)"

definition replaceParams :: "provider \<Rightarrow> jstring list \<Rightarrow> jstring list \<Rightarrow> jstring" where
  "replaceParams P stp line = join (js '' '') (fillParams (filterWords P stp) (filter isParam line))"

fun addQuickFixes ::
  "provider \<Rightarrow> (jstring \<Rightarrow> jstring \<Rightarrow> error + jstring option) \<Rightarrow> (jstring \<Rightarrow> jstring \<Rightarrow> real)
   \<Rightarrow> ITextModel \<Rightarrow> candidate list \<Rightarrow> IMarkerData list \<Rightarrow> error + candidate list" where
  "addQuickFixes P regexpMatch distance model list [] = Inr list"
| "addQuickFixes P regexpMatch distance model list (e # es) =
     (case addQuickFix P regexpMatch distance model list e of
        Inl x \<Rightarrow> Inl x
      | Inr list' \<Rightarrow> addQuickFixes P regexpMatch distance model list' es)"

text \<open>The first seven candidates become actions. The step of a candidate is read from the
  steps by its key; what an inherited key gives has no head, and \<^verbatim>\<open>findKeyword\<close> throws a
  \<^verbatim>\<open>TypeError\<close> on the words it is not given.\<close>

definition fixAction :: "provider \<Rightarrow> ITextModel \<Rightarrow> step \<Rightarrow> candidate \<Rightarrow> CodeAction" where
  "fixAction P model stp e =
     (let txt = replaceParams P (head stp) (candWords e)
      in \<lparr>title = txt, diagnostics = [candError e], actionKind = js ''quickfix'',
          editResource = uri model, editRange = candRange e, editText = txt,
          isPreferred = True\<rparr>)"

fun fixActions :: "provider \<Rightarrow> ITextModel \<Rightarrow> candidate list \<Rightarrow> error + CodeAction list" where
  "fixActions P model [] = Inr []"
| "fixActions P model (e # es) =
     (case stepAt P (candKey e) of
        Entry stp \<Rightarrow>
          (case fixActions P model es of
             Inl x \<Rightarrow> Inl x
           | Inr acts \<Rightarrow> Inr (fixAction P model stp e # acts))
      | Builtin f \<Rightarrow> Inl TypeError
      | Other t \<Rightarrow> Inl TypeError)"

definition getQuickFix ::
  "provider \<Rightarrow> (jstring \<Rightarrow> jstring \<Rightarrow> error + jstring option) \<Rightarrow> (jstring \<Rightarrow> jstring \<Rightarrow> real)
   \<Rightarrow> ITextModel \<Rightarrow> IMarkerData list \<Rightarrow> error + CodeAction list" where
  "getQuickFix P regexpMatch distance model markers =
     (case addQuickFixes P regexpMatch distance model [] markers of
        Inl x \<Rightarrow> Inl x
      | Inr list \<Rightarrow> fixActions P model (take 7 list))"

definition provideCodeActions ::
  "provider \<Rightarrow> (jstring \<Rightarrow> jstring \<Rightarrow> error + jstring option) \<Rightarrow> (jstring \<Rightarrow> jstring \<Rightarrow> real)
   \<Rightarrow> ITextModel \<Rightarrow> IMarkerData list \<Rightarrow> error + CodeAction list option" where
  "provideCodeActions P regexpMatch distance model markers =
     (if length markers = 0 then Inr None
      else if list_all (\<lambda>e. severity e \<noteq> Error) markers then Inr None
      else (case getQuickFix P regexpMatch distance model markers of
              Inl x \<Rightarrow> Inl x
            | Inr acts \<Rightarrow> Inr (Some acts)))"

section \<open>Folding\<close>

text \<open>
  \<^verbatim>\<open>getIndent\<close> counts the leading white space of a line, a tab filling up to the next
  multiple of the tab size, and adds one. With a tab size of nought the remainder
  \<^verbatim>\<open>indent % tabSize\<close> is \<^verbatim>\<open>NaN\<close>, and so is the result; \<open>None\<close> stands for it.
  A comparison with \<^verbatim>\<open>NaN\<close> is false.
\<close>

fun indentLoop :: "nat \<Rightarrow> nat option \<Rightarrow> jstring \<Rightarrow> nat option" where
  "indentLoop tabSize ind [] = ind"
| "indentLoop tabSize ind (c # cs) =
     indentLoop tabSize
       (if c = 9 then
          (case ind of
             None \<Rightarrow> None
           | Some i \<Rightarrow> if tabSize = 0 then None else Some (i + tabSize - i mod tabSize))
        else map_option Suc ind) cs"

definition getIndent :: "jstring \<Rightarrow> nat \<Rightarrow> nat option" where
  "getIndent line tabSize =
     map_option Suc
       (indentLoop tabSize (Some 0)
          (if list_all isSpace line then [] else takeWhile isSpace line))"

definition numLe :: "nat option \<Rightarrow> nat option \<Rightarrow> bool" where
  "numLe a b = (case a of None \<Rightarrow> False | Some x \<Rightarrow> (case b of None \<Rightarrow> False | Some y \<Rightarrow> x \<le> y))"

record VAIndent =
  token :: VAToken
  indent :: "nat option"

text \<open>The kinds of \<^verbatim>\<open>monaco.languages.FoldingRangeKind\<close>; a range may have none.\<close>

datatype FoldingRangeKind = FoldComment | FoldImports | FoldRegion

record FoldingRange =
  foldKind :: "FoldingRangeKind option"
  foldStart :: nat
  foldEnd :: nat

text \<open>The first loop of \<^verbatim>\<open>getCodeFolding\<close> classifies the lines. Inside a multiline
  block every line is \<^verbatim>\<open>Multiline\<close>, the closing delimiter included; an operator line
  that is a section becomes \<^verbatim>\<open>Section\<close>, every other operator line gets its indent.\<close>

function classifyLines ::
  "provider \<Rightarrow> nat \<Rightarrow> nat \<Rightarrow> (nat \<Rightarrow> jstring) \<Rightarrow> nat \<Rightarrow> bool \<Rightarrow> VAIndent list
   \<Rightarrow> error + VAIndent list" where
  "classifyLines P tabSize lineCount getLine n multiline lines =
     (if n \<le> lineCount then
        (let line = getLine n;
             tok0 = getToken line;
             tok = (if multiline then Multiline else tok0);
             multiline' = (if multiline then tok0 \<noteq> Multiline else tok0 = Multiline)
         in if tok \<noteq> Operator then
              classifyLines P tabSize lineCount getLine (Suc n) multiline'
                (lines @ [\<lparr>token = tok, indent = Some 0\<rparr>])
            else
              (case isSection P line of
                 Inl e \<Rightarrow> Inl e
               | Inr True \<Rightarrow>
                   classifyLines P tabSize lineCount getLine (Suc n) multiline'
                     (lines @ [\<lparr>token = Section, indent = Some 0\<rparr>])
               | Inr False \<Rightarrow>
                   classifyLines P tabSize lineCount getLine (Suc n) multiline'
                     (lines @ [\<lparr>token = tok, indent = getIndent line tabSize\<rparr>])))
      else Inr lines)"
  by pat_completeness auto
termination
  by (relation "measure (\<lambda>(P, tabSize, lineCount, getLine, n, multiline, lines). Suc lineCount - n)")
     auto

declare classifyLines.simps [simp del]

text \<open>The inner loops of the second pass. Each starts at the line after \<open>i\<close> with
  \<open>k = i\<close> and gives the last line of the block.\<close>

function scanSame :: "VAIndent list \<Rightarrow> nat \<Rightarrow> VAToken \<Rightarrow> nat \<Rightarrow> nat \<Rightarrow> nat" where
  "scanSame lines lineCount tok j k =
     (if j \<le> lineCount then
        (if token (lines ! j) = tok then scanSame lines lineCount tok (Suc j) j else k)
      else k)"
  by pat_completeness auto
termination
  by (relation "measure (\<lambda>(lines, lineCount, tok, j, k). Suc lineCount - j)") auto

declare scanSame.simps [simp del]

function scanSection :: "VAIndent list \<Rightarrow> nat \<Rightarrow> nat \<Rightarrow> nat \<Rightarrow> nat" where
  "scanSection lines lineCount j k =
     (if j \<le> lineCount then
        (if token (lines ! j) = Section then k else scanSection lines lineCount (Suc j) j)
      else k)"
  by pat_completeness auto
termination
  by (relation "measure (\<lambda>(lines, lineCount, j, k). Suc lineCount - j)") auto

declare scanSection.simps [simp del]

function scanOperator :: "VAIndent list \<Rightarrow> nat \<Rightarrow> nat option \<Rightarrow> nat \<Rightarrow> nat \<Rightarrow> nat" where
  "scanOperator lines lineCount ind j k =
     (if j \<le> lineCount then
        (let next = lines ! j in
         if token next = Section then k
         else if token next = Empty then scanOperator lines lineCount ind (Suc j) k
         else if token next = Comment then scanOperator lines lineCount ind (Suc j) j
         else if token next = Multiline then scanOperator lines lineCount ind (Suc j) j
         else if token next = Parameter then scanOperator lines lineCount ind (Suc j) j
         else if numLe (indent next) ind then k
         else scanOperator lines lineCount ind (Suc j) j)
      else k)"
  by pat_completeness auto
termination
  by (relation "measure (\<lambda>(lines, lineCount, ind, j, k). Suc lineCount - j)") auto

declare scanOperator.simps [simp del]

definition blockEnd :: "VAIndent list \<Rightarrow> nat \<Rightarrow> nat \<Rightarrow> nat" where
  "blockEnd lines lineCount i =
     (case token (lines ! i) of
        Instruction \<Rightarrow> scanSame lines lineCount Instruction (Suc i) i
      | Comment \<Rightarrow> scanSame lines lineCount Comment (Suc i) i
      | Section \<Rightarrow> scanSection lines lineCount (Suc i) i
      | Operator \<Rightarrow> scanOperator lines lineCount (indent (lines ! i)) (Suc i) i
      | Empty \<Rightarrow> i
      | Multiline \<Rightarrow> i
      | Parameter \<Rightarrow> i)"

definition blockKind :: "VAToken \<Rightarrow> FoldingRangeKind option" where
  "blockKind tok =
     (case tok of
        Comment \<Rightarrow> Some FoldComment
      | Section \<Rightarrow> Some FoldRegion
      | Instruction \<Rightarrow> None
      | Operator \<Rightarrow> None
      | Empty \<Rightarrow> None
      | Multiline \<Rightarrow> None
      | Parameter \<Rightarrow> None)"

lemma scanSame_ge: "k \<le> j \<Longrightarrow> k \<le> scanSame lines lineCount tok j k"
proof (induction lines lineCount tok j k rule: scanSame.induct)
  case (1 lines lineCount tok j k)
  then show ?case
    by (subst scanSame.simps) (auto intro: order_trans)
qed

lemma scanSection_ge: "k \<le> j \<Longrightarrow> k \<le> scanSection lines lineCount j k"
proof (induction lines lineCount j k rule: scanSection.induct)
  case (1 lines lineCount j k)
  then show ?case
    by (subst scanSection.simps) (auto intro: order_trans)
qed

lemma scanOperator_ge: "k \<le> j \<Longrightarrow> k \<le> scanOperator lines lineCount ind j k"
proof (induction lines lineCount ind j k rule: scanOperator.induct)
  case (1 lines lineCount ind j k)
  then show ?case
    by (subst scanOperator.simps) (auto simp: Let_def intro: order_trans)
qed

lemma blockEnd_ge: "i \<le> blockEnd lines lineCount i"
  by (simp add: blockEnd_def scanSame_ge scanSection_ge scanOperator_ge split: VAToken.splits)

text \<open>The second pass: a fold is pushed where the block ends after the line it starts
  on, and the scan goes on after a block of instructions or comments.\<close>

function foldLoop :: "VAIndent list \<Rightarrow> nat \<Rightarrow> nat \<Rightarrow> FoldingRange list \<Rightarrow> FoldingRange list" where
  "foldLoop lines lineCount i result =
     (if i \<le> lineCount then
        (let line = lines ! i;
             k = blockEnd lines lineCount i;
             result' = (if k > i
                        then result @ [\<lparr>foldKind = blockKind (token line), foldStart = i, foldEnd = k\<rparr>]
                        else result);
             i' = (if token line = Instruction \<or> token line = Comment then k else i)
         in foldLoop lines lineCount (Suc i') result')
      else result)"
  by pat_completeness auto
termination
proof (relation "measure (\<lambda>(lines, lineCount, i, result). Suc lineCount - i)")
  show "wf (measure (\<lambda>(lines, lineCount, i, result). Suc lineCount - i))" by simp
next
  fix lines :: "VAIndent list" and lineCount i :: nat and result :: "FoldingRange list"
    and line k result' i'
  assume "i \<le> lineCount" and "k = blockEnd lines lineCount i"
    and "i' = (if token line = Instruction \<or> token line = Comment then k else i)"
  moreover have "i \<le> blockEnd lines lineCount i" by (rule blockEnd_ge)
  ultimately show "((lines, lineCount, Suc i', result'), lines, lineCount, i, result)
      \<in> measure (\<lambda>(lines, lineCount, i, result). Suc lineCount - i)"
    by auto
qed

declare foldLoop.simps [simp del]

definition getCodeFolding ::
  "provider \<Rightarrow> nat \<Rightarrow> nat \<Rightarrow> (nat \<Rightarrow> jstring) \<Rightarrow> error + FoldingRange list" where
  "getCodeFolding P tabSize lineCount getLine =
     (case classifyLines P tabSize lineCount getLine 1 False [\<lparr>token = Empty, indent = Some 0\<rparr>] of
        Inl e \<Rightarrow> Inl e
      | Inr lines \<Rightarrow> Inr (foldLoop lines lineCount 1 []))"

definition provideFoldingRanges :: "provider \<Rightarrow> ITextModel \<Rightarrow> error + FoldingRange list" where
  "provideFoldingRanges P model =
     getCodeFolding P (optionsTabSize model) (getLineCount model) (getLineContent model)"

section \<open>Links\<close>

text \<open>\<^verbatim>\<open>trimQuotes\<close> replaces by \<^verbatim>\<open>/^["'](.*)["']$/\<close>: a word that starts and ends with
  a quote of either kind, with no line terminator between, loses the two quotes.\<close>

definition trimQuotes :: "jstring \<Rightarrow> jstring" where
  "trimQuotes w =
     (if 2 \<le> length w \<and> (hd w = 34 \<or> hd w = 39) \<and> (last w = 34 \<or> last w = 39) \<and>
         \<not> (\<exists>c\<in>set (butlast (tl w)). isLineTerminator c)
      then butlast (tl w) else w)"

text \<open>
  The cells of a table row are the matches of
  \<^verbatim>\<open>/"(\\\|[^"])*"|'(\\'|[^'])*'|[^\s\|][^\|]*[^\s\|]|[^\s\|]/g\<close>. In the first
  alternative the bar is escaped, so between the double quotes it takes any number of
  triples of a backslash, a bar and a code unit that is no double quote, and nothing
  else; a double-quoted cell of another kind falls to the third alternative. The second
  is a single-quoted text up to the first quote without a backslash before it or, if
  there is none, up to the last quote with one; the third a text from a code unit that is
  neither white space nor a bar up to the last such code unit before the next bar; the
  fourth one such code unit. \<open>escapedBars\<close> and \<open>singleQuoted\<close> read what follows the
  opening quote.
\<close>

fun escapedBars :: "jstring \<Rightarrow> nat option" where
  "escapedBars [] = None"
| "escapedBars [c] = (if c = 34 then Some 1 else None)"
| "escapedBars [c, d] = (if c = 34 then Some 1 else None)"
| "escapedBars (c # d # x # rest) =
     (if c = 34 then Some 1
      else if c = 92 \<and> d = 124 \<and> x \<noteq> 34 then map_option (\<lambda>n. n + 3) (escapedBars rest)
      else None)"

fun singleQuoted :: "jstring \<Rightarrow> nat option" where
  "singleQuoted [] = None"
| "singleQuoted [c] = (if c = 39 then Some 1 else None)"
| "singleQuoted (c # d # ds) =
     (if c = 39 then Some 1
      else if c = 92 \<and> d = 39 then
        (case singleQuoted ds of Some n \<Rightarrow> Some (n + 2) | None \<Rightarrow> Some 2)
      else map_option Suc (singleQuoted (d # ds)))"

definition cellAt :: "jstring \<Rightarrow> nat option" where
  "cellAt s =
     (case s of
        [] \<Rightarrow> None
      | c # cs \<Rightarrow>
          (case (if c = 34 then escapedBars cs else None) of
             Some n \<Rightarrow> Some (Suc n)
           | None \<Rightarrow>
          (case (if c = 39 then singleQuoted cs else None) of
             Some n \<Rightarrow> Some (Suc n)
           | None \<Rightarrow>
          (if isSpace c \<or> c = 124 then None
           else (let run = rev (dropWhile isSpace (rev (takeWhile (\<lambda>x. x \<noteq> 124) cs)))
                 in if run \<noteq> [] then Some (Suc (length run)) else Some 1)))))"

lemma cellAt_pos: "cellAt s = Some n \<Longrightarrow> 0 < n"
  by (cases s) (auto simp: cellAt_def Let_def split: option.splits if_splits)

function tableCells :: "jstring \<Rightarrow> jstring list" where
  "tableCells s =
     (if s = [] then []
      else (case cellAt s of
              None \<Rightarrow> tableCells (tl s)
            | Some n \<Rightarrow> take n s # tableCells (drop n s)))"
  by pat_completeness auto
termination
proof (relation "measure length")
  show "wf (measure length)" by simp
next
  fix s :: jstring
  assume "s \<noteq> []"
  then show "(tl s, s) \<in> measure length" by (cases s) auto
next
  fix s :: jstring and n
  assume "s \<noteq> []" and "cellAt s = Some n"
  then show "(drop n s, s) \<in> measure length"
    using cellAt_pos [of s n] by (cases s) auto
qed

declare tableCells.simps [simp del]

text \<open>An assignment line, \<^verbatim>\<open>/^\s*(name)\s*=\s*(.*)\s*$/\<close> with a name of letters and
  digits that starts with a letter: the name and the text after the equals sign up to the
  first line terminator, after which only white space may follow.\<close>

definition assignment :: "jstring \<Rightarrow> (jstring \<times> jstring) option" where
  "assignment line =
     (let rest = dropWhile isSpace line;
          ident = takeWhile (\<lambda>c. isLetter c \<or> isDigit c) rest;
          after = dropWhile isSpace (drop (length ident) rest);
          val0 = dropWhile isSpace (drop 1 after);
          val = takeWhile (\<lambda>c. \<not> isLineTerminator c) val0
      in if rest \<noteq> [] \<and> isLetter (hd rest) \<and> after \<noteq> [] \<and> hd after = 61 \<and>
            list_all isSpace (drop (length val) val0)
         then Some (ident, val) else None)"

text \<open>
  The state of the scan of a variables block. The object \<^verbatim>\<open>multidata\<close> a multiline
  text is written to is the record of the last assignment, which is stored in the default
  table, or an object that is stored nowhere; \<open>lsMultidata\<close> holds the key of that record
  while the default table still has it, and \<open>None\<close> otherwise.
\<close>

record linkScan =
  lsTable :: jstring
  lsColumns :: "jstring list option"
  lsLinks :: linkTables
  lsMultiline :: bool
  lsMultitext :: jstring
  lsMultidata :: "jstring option"

definition putLink :: "linkTables \<Rightarrow> jstring \<Rightarrow> jstring \<Rightarrow> linkRecord \<Rightarrow> linkTables" where
  "putLink lnks table k r =
     objPut lnks table (objPut (case objGet lnks table of None \<Rightarrow> [] | Some t \<Rightarrow> t) k r)"

definition setMultiName :: "linkScan \<Rightarrow> jstring \<Rightarrow> linkScan" where
  "setMultiName st txt =
     (case lsMultidata st of
        None \<Rightarrow> st
      | Some k \<Rightarrow>
          (case objGet (lsLinks st) [] of
             None \<Rightarrow> st
           | Some t \<Rightarrow>
               (case objGet t k of
                  None \<Rightarrow> st
                | Some r \<Rightarrow> st\<lparr>lsLinks := putLink (lsLinks st) [] k (r\<lparr>linkName := Some txt\<rparr>)\<rparr>)))"

text \<open>A table row: the first row after the columns were reset names the columns, every
  later one is stored under its first cell in lower case, with one entry of data for
  each column.\<close>

definition tableRow :: "linkScan \<Rightarrow> jstring list \<Rightarrow> linkScan" where
  "tableRow st cells =
     (case lsColumns st of
        None \<Rightarrow> st\<lparr>lsColumns := Some (map trimQuotes cells)\<rparr>
      | Some cols \<Rightarrow>
          (let cells' = map trimQuotes cells;
               padded = cells' @ replicate (length cols - length cells') [];
               row = \<lparr>linkKey = hd padded,
                      linkName = (if 1 < length padded then Some (padded ! 1) else None),
                      linkFile = None,
                      linkData = Some (foldl (\<lambda>d cv. objPut d (fst cv) (snd cv)) [] (zip cols padded)),
                      linkColumn = None, linkTable = None, linkParam = None\<rparr>;
               k = toLowerCase (hd padded)
           in st\<lparr>lsLinks := putLink (lsLinks st) (lsTable st) k row,
                 lsMultidata := (if lsTable st = [] \<and> lsMultidata st = Some k then None
                                 else lsMultidata st)\<rparr>))"

definition assign :: "linkScan \<Rightarrow> jstring \<Rightarrow> jstring \<Rightarrow> linkScan" where
  "assign st ident val =
     (let k = toLowerCase ident
      in st\<lparr>lsTable := [], lsColumns := None,
            lsLinks := putLink (lsLinks st) [] k
                         \<lparr>linkKey = k, linkName = Some (trim val), linkFile = None,
                          linkData = None, linkColumn = None, linkTable = None,
                          linkParam = None\<rparr>,
            lsMultidata := Some k\<rparr>)"

text \<open>An import directive merges the default table of the imported file into the default
  table and takes its other tables over as they are.\<close>

definition importFile :: "provider \<Rightarrow> linkScan \<Rightarrow> jstring \<Rightarrow> error + linkScan" where
  "importFile P st group3 =
     (let st1 = st\<lparr>lsTable := [], lsColumns := None, lsMultidata := None\<rparr>
      in case objGet (importedFiles P) (toLowerCase (trimQuotes (trim group3))) of
           None \<Rightarrow> Inr st1
         | Some vars \<Rightarrow>
             (case objGet vars [] of
                None \<Rightarrow> Inl TypeError
              | Some dflt \<Rightarrow>
                  (let l1 = foldl (\<lambda>l kr. putLink l [] (fst kr) (snd kr)) (lsLinks st1) dflt;
                       l2 = foldl (\<lambda>l kt. if fst kt \<noteq> [] then objPut l (fst kt) (snd kt) else l)
                              l1 vars
                   in Inr (st1\<lparr>lsLinks := l2\<rparr>))))"

text \<open>The inner loop of \<^verbatim>\<open>getLinks\<close>, from the line after the variables header. It
  returns the tables, with the number of the line it stopped at, when it meets a section
  line, and nothing when it reaches the end of the document.\<close>

function scanVariables ::
  "provider \<Rightarrow> matcher \<Rightarrow> ITextModel \<Rightarrow> nat \<Rightarrow> nat \<Rightarrow> linkScan
   \<Rightarrow> error + (nat \<times> linkTables) option" where
  "scanVariables P m model lineCount i st =
     (if i \<le> lineCount then
        (let line = getLineContent model i; rest = dropWhile isSpace line in
         if isMultilineDelimiter line then
           scanVariables P m model lineCount (Suc i)
             (st\<lparr>lsMultiline := \<not> lsMultiline st,
                 lsMultitext := (if \<not> lsMultiline st then [] else lsMultitext st)\<rparr>)
         else if lsMultiline st then
           (let txt = lsMultitext st @ (if lsMultitext st = [] then [] else [10]) @ line
            in scanVariables P m model lineCount (Suc i) (setMultiName (st\<lparr>lsMultitext := txt\<rparr>) txt))
         else if startsWith (js ''|'') rest then
           (if tableCells line = [] then scanVariables P m model lineCount (Suc i) st
            else scanVariables P m model lineCount (Suc i) (tableRow st (tableCells line)))
         else
           (case assignment line of
              Some (ident, val) \<Rightarrow> scanVariables P m model lineCount (Suc i) (assign st ident val)
            | None \<Rightarrow>
                (case regImport m line of
                   Some group3 \<Rightarrow>
                     (case importFile P st group3 of
                        Inl e \<Rightarrow> Inl e
                      | Inr st' \<Rightarrow> scanVariables P m model lineCount (Suc i) st')
                 | None \<Rightarrow>
                     if isCommentOrTag line then scanVariables P m model lineCount (Suc i) st
                     else if startsWith (js ''*'') rest then
                       scanVariables P m model lineCount (Suc i)
                         (st\<lparr>lsTable := toLowerCase (trim (tl rest))\<rparr>)
                     else
                       (case isSection P line of
                          Inl e \<Rightarrow> Inl e
                        | Inr True \<Rightarrow> Inr (Some (i, lsLinks st))
                        | Inr False \<Rightarrow>
                            scanVariables P m model lineCount (Suc i)
                              (st\<lparr>lsTable := (if lsColumns st \<noteq> None then [] else lsTable st),
                                  lsColumns := None, lsMultidata := None\<rparr>)))))
      else Inr None)"
  by pat_completeness auto
termination
  by (relation "measure (\<lambda>(P, m, model, lineCount, i, st). Suc lineCount - i)") auto

declare scanVariables.simps [simp del]

definition variablesHeader :: "matcher \<Rightarrow> jstring \<Rightarrow> bool" where
  "variablesHeader m line =
     (case objGet (regSection m) (js ''variables'') of None \<Rightarrow> True | Some r \<Rightarrow> r line)"

definition initialScan :: linkScan where
  "initialScan =
     \<lparr>lsTable = [], lsColumns = None, lsLinks = [([], [])], lsMultiline = False,
      lsMultitext = [], lsMultidata = None\<rparr>"

text \<open>The outer loop looks for a variables header in every line but the last; where the
  scan after a header comes to the end of the document, the search goes on with the next
  line.\<close>

function findVariables ::
  "provider \<Rightarrow> matcher \<Rightarrow> ITextModel \<Rightarrow> nat \<Rightarrow> nat \<Rightarrow> error + (nat \<times> linkTables) option" where
  "findVariables P m model lineCount n =
     (if int n \<le> int lineCount - 1 then
        (if variablesHeader m (getLineContent model n) then
           (case scanVariables P m model lineCount (Suc n) initialScan of
              Inl e \<Rightarrow> Inl e
            | Inr (Some found) \<Rightarrow> Inr (Some found)
            | Inr None \<Rightarrow> findVariables P m model lineCount (Suc n))
         else findVariables P m model lineCount (Suc n))
      else Inr None)"
  by pat_completeness auto
termination
  by (relation "measure (\<lambda>(P, m, model, lineCount, n). lineCount - n)") auto

declare findVariables.simps [simp del]

text \<open>\<^verbatim>\<open>getLinks\<close> gives the tables and the line the block ended at; without a block
  that a section line ends it gives no tables and the last line.\<close>

definition getLinks :: "provider \<Rightarrow> ITextModel \<Rightarrow> nat \<Rightarrow> error + nat \<times> linkTables" where
  "getLinks P model lineCount =
     (case matcher P of
        None \<Rightarrow> Inl TypeError
      | Some m \<Rightarrow>
          (case findVariables P m model lineCount 1 of
             Inl e \<Rightarrow> Inl e
           | Inr (Some found) \<Rightarrow> Inr found
           | Inr None \<Rightarrow> Inr (lineCount, [])))"

text \<open>
  \<^verbatim>\<open>getLinkData\<close>: the record found is returned with the table and the dotted key
  written into it, and the column if one is given. A record of the model is a value, so
  what the source writes into a record it shares with the imported files is seen in the
  result of this call only.
\<close>

definition findLink :: "linkTables \<Rightarrow> jstring \<Rightarrow> jstring \<Rightarrow> linkRecord option" where
  "findLink lnks table row =
     (case objGet lnks table of None \<Rightarrow> None | Some t \<Rightarrow> objGet t row)"

definition annotate :: "linkRecord \<Rightarrow> jstring option \<Rightarrow> jstring \<Rightarrow> jstring \<Rightarrow> linkRecord" where
  "annotate obj col table k =
     obj\<lparr>linkColumn := (case col of
                          None \<Rightarrow> linkColumn obj
                        | Some c \<Rightarrow> if c \<noteq> [] then Some c else linkColumn obj),
         linkTable := Some table, linkParam := Some k\<rparr>"

definition linkLookup ::
  "linkTables \<Rightarrow> jstring \<Rightarrow> jstring \<Rightarrow> jstring \<Rightarrow> jstring option \<Rightarrow> linkRecord option" where
  "linkLookup lnks k table row col =
     (case findLink lnks table row of
        Some obj \<Rightarrow> Some (annotate obj col table k)
      | None \<Rightarrow>
          (case col of
             Some c \<Rightarrow> None
           | None \<Rightarrow>
               (case findLink lnks [] table of
                  Some obj \<Rightarrow> Some (annotate obj (Some row) [] k)
                | None \<Rightarrow> None)))"

definition getLinkData :: "provider \<Rightarrow> ITextModel \<Rightarrow> jstring \<Rightarrow> error + linkRecord option" where
  "getLinkData P model k =
     (case getLinks P model (getLineCount model) of
        Inl e \<Rightarrow> Inl e
      | Inr (pos, lnks) \<Rightarrow>
          Inr (case map toLowerCase (splitOn 46 k) of
                 [w0] \<Rightarrow> linkLookup lnks k [] w0 None
               | [w0, w1] \<Rightarrow> linkLookup lnks k w0 w1 None
               | [w0, w1, w2] \<Rightarrow> linkLookup lnks k w0 w1 (Some w2)
               | ws \<Rightarrow> None))"

section \<open>The provider as constructed, and sample payloads\<close>

text \<open>The field initialisers of the class: every dictionary empty, four metatags, no
  matcher until \<^verbatim>\<open>setMatchers\<close> is called.\<close>

definition initialProvider :: provider where
  "initialProvider =
     \<lparr>soundHint = js ''Sound'', syntaxMsg = js ''Syntax error'', keywordList = [],
      metatags = [js ''try'', js ''except'',
                  [1087, 1086, 1087, 1099, 1090, 1082, 1072],
                  [1080, 1089, 1082, 1083, 1102, 1095, 1077, 1085, 1080, 1077]],
      keypairs = [], steps = [], elements = [], variables = [], stepsPrototype = None,
      variablesPrototype = None, importedFiles = [], matcher = None\<rparr>"

text \<open>The payload texts of the examples below, with the values \<^verbatim>\<open>JSON.parse\<close> gives for
  them; the text \<^verbatim>\<open>["when"\<close> lacks its closing bracket and is rejected.\<close>

definition sampleParse :: "jstring \<Rightarrow> json option" where
  "sampleParse s =
     (if s = js ''[\"when\"]'' then Some (JArray [JString (js ''when'')])
      else if s = js ''[\"when\", \"when not\"]'' then
        Some (JArray [JString (js ''when''), JString (js ''when not'')])
      else if s = js ''[\"\"]'' then Some (JArray [JString []])
      else if s = js ''[\"click\"]'' then Some (JArray [JString (js ''click'')])
      else if s = js ''{\"click\": [\"twice\"]}'' then
        Some (JObject [(js ''click'', JArray [JString (js ''twice'')])])
      else if s = js ''{\"User\": \"Alice\", \"count\": 3}'' then
        Some (JObject [(js ''User'', JString (js ''Alice'')), (js ''count'', JNumber (js ''3''))])
      else if s = js ''{\"__proto__\": 5}'' then
        Some (JObject [(js ''__proto__'', JNumber (js ''5''))])
      else None)"

text \<open>
  A matcher for the examples: a line that ends in a colon is a section, the named ones
  by their first word; every line that is not blank has the shape of a step; there are no
  import directives.
\<close>

definition sampleMatcher :: matcher where
  "sampleMatcher =
     \<lparr>regSection =
        [([], \<lambda>line. line \<noteq> [] \<and> last line = 58),
         (js ''feature'', \<lambda>line. startsWith (js ''Feature:'') (dropWhile isSpace line)),
         (js ''variables'', \<lambda>line. startsWith (js ''Variables:'') (dropWhile isSpace line)),
         (js ''scenario'', \<lambda>line. startsWith (js ''Scenario:'') (dropWhile isSpace line))],
      regStep = (\<lambda>line. dropWhile isSpace line \<noteq> []),
      regImport = (\<lambda>line. None)\<rparr>"

text \<open>
  A text model over a list of lines, for the examples: columns count from one, the
  first and last non-blank columns are zero for a blank line, and a range within one line
  gives that part of the line. The matches of a search are those among the given ranges
  \<open>found\<close> that lie on the line searched.
\<close>

definition firstNonWhitespaceColumn :: "jstring \<Rightarrow> int" where
  "firstNonWhitespaceColumn line =
     (if list_all (\<lambda>c. c = 32 \<or> c = 9) line then 0
      else int (length (takeWhile (\<lambda>c. c = 32 \<or> c = 9) line)) + 1)"

definition lastNonWhitespaceColumn :: "jstring \<Rightarrow> int" where
  "lastNonWhitespaceColumn line =
     (if list_all (\<lambda>c. c = 32 \<or> c = 9) line then 0
      else int (length line - length (takeWhile (\<lambda>c. c = 32 \<or> c = 9) (rev line))) + 1)"

definition documentModel :: "jstring \<Rightarrow> jstring list \<Rightarrow> IRange list \<Rightarrow> ITextModel" where
  "documentModel mode lines found =
     \<lparr>uri = js ''inmemory://model/1'',
      getModeId = mode,
      getLineCount = length lines,
      getLineContent = (\<lambda>n. lines ! (n - 1)),
      getLineMinColumn = (\<lambda>n. 1),
      getLineMaxColumn = (\<lambda>n. int (length (lines ! (n - 1))) + 1),
      getLineFirstNonWhitespaceColumn = (\<lambda>n. firstNonWhitespaceColumn (lines ! (n - 1))),
      getLineLastNonWhitespaceColumn = (\<lambda>n. lastNonWhitespaceColumn (lines ! (n - 1))),
      getValueInRange =
        (\<lambda>r. take (nat (endColumn r - startColumn r))
                (drop (nat (startColumn r - 1)) (lines ! (startLineNumber r - 1)))),
      findMatches =
        (\<lambda>source scope. filter (\<lambda>r. startLineNumber r = startLineNumber scope) found),
      optionsTabSize = 4\<rparr>"

text \<open>The step list of the examples, as \<^verbatim>\<open>JSON.parse\<close> gives it for a payload with the
  one step \<^verbatim>\<open>click button\<close>.\<close>

definition clickButton :: IVanessaStep where
  "clickButton =
     \<lparr>stepFilterText = js ''click button'', stepInsertText = js ''click button'',
      stepSortText = js ''click button'', stepDocumentation = js ''Clicks a button'',
      stepKind = 0, stepSection = js ''UI''\<rparr>"

definition sampleParseSteps :: "jstring \<Rightarrow> IVanessaStep list option" where
  "sampleParseSteps s = (if s = js ''[click button]'' then Some [clickButton] else None)"

text \<open>The provider of Scenario C: a matcher is set, then the keyword \<^verbatim>\<open>click\<close>, the
  keypairs \<^verbatim>\<open>click\<close> to \<^verbatim>\<open>twice\<close>, and the step \<^verbatim>\<open>click button\<close> are registered
  through the setters.\<close>

definition clickProvider :: provider where
  "clickProvider =
     snd (setStepList sampleParseSteps (js ''[click button]'') False
       (snd (setKeypairs sampleParse (js ''{\"click\": [\"twice\"]}'')
         (snd (setKeywords sampleParse (js ''[\"click\"]'')
           (initialProvider\<lparr>matcher := Some sampleMatcher\<rparr>))))))"

text \<open>The same provider after \<^verbatim>\<open>setVariables('{"User": "Alice", "count": 3}')\<close>, and a
  document whose one line holds the placeholder \<^verbatim>\<open>"zzz"\<close> in columns 7 to 11.\<close>

definition aliceProvider :: provider where
  "aliceProvider =
     snd (setVariables sampleParse (js ''{\"User\": \"Alice\", \"count\": 3}'') False clickProvider)"

definition zzzModel :: ITextModel where
  "zzzModel =
     documentModel (js ''turbo-gherkin'') [js ''click \"zzz\"'']
       [\<lparr>startLineNumber = 1, startColumn = 7, endLineNumber = 1, endColumn = 12\<rparr>]"

text \<open>
  Stand-ins for the two platform functions of the quick fix. The similarity is one for
  equal keys, nine tenths where one key is a proper prefix of the other and nought
  otherwise; like every similarity it gives equal pairs of keys equal scores. The
  expression \<^verbatim>\<open>^[\s]*click[\s]+\<close>, the only one the examples build, matches leading
  white space, the word and the white space after it.
\<close>

definition prefixSimilarity :: "jstring \<Rightarrow> jstring \<Rightarrow> real" where
  "prefixSimilarity a b =
     (if a = b then 1
      else if take (length b) a = b \<or> take (length a) b = a then 9 / 10
      else 0)"

definition sampleRegexpMatch :: "jstring \<Rightarrow> jstring \<Rightarrow> error + jstring option" where
  "sampleRegexpMatch source subject =
     (if source = [94, 91, 92, 115, 93, 42] @ js ''click'' @ [91, 92, 115, 93, 43] then
        (let ws = takeWhile isSpace subject;
             rest = dropWhile isSpace subject;
             gap = takeWhile isSpace (drop 5 rest)
         in if startsWith (js ''click'') rest \<and> gap \<noteq> []
            then Inr (Some (ws @ js ''click'' @ gap)) else Inr None)
      else Inl SyntaxError)"

text \<open>A document with the line \<^verbatim>\<open>click button thrice\<close> twice; \<^verbatim>\<open>checkSyntax\<close> flags
  both lines.\<close>

definition thriceModel :: ITextModel where
  "thriceModel =
     documentModel (js ''turbo-gherkin'') [js ''click button thrice'', js ''click button thrice''] []"

text \<open>The document of Scenario D, once with the variables block at the end of the document
  and once with a section after it.\<close>

definition usersOpen :: ITextModel where
  "usersOpen = documentModel (js ''turbo-gherkin'')
     [js ''Variables:'', js ''* Users'', js ''| id | name |'', js ''| 1 | Alice |''] []"

definition usersClosed :: ITextModel where
  "usersClosed = documentModel (js ''turbo-gherkin'')
     [js ''Variables:'', js ''* Users'', js ''| id | name |'', js ''| 1 | Alice |'',
      js ''Scenario:'', js ''click \"Users.1\"''] []"

section \<open>Notions of the statements\<close>

text \<open>
  The specification's reading of a match: a keyword is a case-insensitive positional prefix
  of the tokens when the tokens are at least as many as its words and each word equals,
  up to case, the token at its position.
\<close>

fun ciPrefix :: "jstring list \<Rightarrow> jstring list \<Rightarrow> bool" where
  "ciPrefix [] tokens = True"
| "ciPrefix (w # item) [] = False"
| "ciPrefix (w # item) (t # tokens) = (toLowerCase w = toLowerCase t \<and> ciPrefix item tokens)"



text \<open>What the specification says of a quick-fix candidate. The text of a diagnostic is
  what \<^verbatim>\<open>addQuickFix\<close> reads: the lines of the diagnostic from column one to the end of
  the diagnostic. A candidate is good for a list of diagnostics when it carries one of
  them, its words are the words of that diagnostic's text, its key is a key of the
  steps, its score is the similarity of that key to the phrase key of the words and lies
  above 0.7, and its range lies on the lines of the diagnostic and ends where it ends.\<close>

definition diagnosticText :: "ITextModel \<Rightarrow> IMarkerData \<Rightarrow> jstring" where
  "diagnosticText model e =
     getValueInRange model
       \<lparr>startLineNumber = startLineNumber e, startColumn = 1,
        endLineNumber = endLineNumber e, endColumn = endColumn e\<rparr>"

definition goodCandidate ::
  "provider \<Rightarrow> (jstring \<Rightarrow> jstring \<Rightarrow> real) \<Rightarrow> ITextModel \<Rightarrow> IMarkerData list \<Rightarrow> candidate
   \<Rightarrow> bool" where
  "goodCandidate P distance model markers c \<longleftrightarrow>
     candError c \<in> set markers \<and>
     candWords c = splitWords (diagnosticText model (candError c)) \<and>
     candKey c \<in> set (stepKeys P) \<and>
     candSum c = distance (key (filterWords P (candWords c))) (candKey c) \<and>
     7 / 10 < candSum c \<and>
     startLineNumber (candRange c) = startLineNumber (candError c) \<and>
     endLineNumber (candRange c) = endLineNumber (candError c) \<and>
     endColumn (candRange c) = endColumn (candError c) \<and>
     1 \<le> startColumn (candRange c)"

text \<open>
  What ends the fold of an operator line of indent \<open>ind\<close>: a section line, or a line that
  is neither empty nor a comment, a multiline line or a parameter and whose indent is at
  most \<open>ind\<close>.
\<close>

definition stops :: "VAIndent list \<Rightarrow> nat option \<Rightarrow> nat \<Rightarrow> bool" where
  "stops lines ind l \<longleftrightarrow>
     token (lines ! l) = Section \<or>
     (token (lines ! l) \<noteq> Empty \<and> token (lines ! l) \<noteq> Comment \<and>
      token (lines ! l) \<noteq> Multiline \<and> token (lines ! l) \<noteq> Parameter \<and>
      numLe (indent (lines ! l)) ind)"

text \<open>The entries that \<^verbatim>\<open>getCodeFolding\<close> builds when the tab width is not nought: every
  indent is a number, and the indent of an instruction line is nought.\<close>

definition entryOk :: "VAIndent \<Rightarrow> bool" where
  "entryOk e \<longleftrightarrow> (\<exists>x. indent e = Some x \<and> (token e = Instruction \<longrightarrow> x = 0))"

definition wellIndented :: "VAIndent list \<Rightarrow> nat \<Rightarrow> bool" where
  "wellIndented lines lineCount \<longleftrightarrow>
     (\<forall>l\<le>lineCount. \<exists>x. indent (lines ! l) = Some x \<and> (token (lines ! l) = Instruction \<longrightarrow> x = 0))"

text \<open>The fold of the second pass at a line, and the two ways in which a fold may lie to a
  later one: before it, or around it. Two folds cross when the later one starts inside the
  earlier one and ends after it.\<close>

definition foldAt :: "VAIndent list \<Rightarrow> nat \<Rightarrow> nat \<Rightarrow> FoldingRange" where
  "foldAt lines lineCount i =
     \<lparr>foldKind = blockKind (token (lines ! i)), foldStart = i, foldEnd = blockEnd lines lineCount i\<rparr>"

definition nestedOrApart :: "FoldingRange \<Rightarrow> FoldingRange \<Rightarrow> bool" where
  "nestedOrApart a b \<longleftrightarrow>
     foldStart a < foldStart b \<and> (foldEnd a < foldStart b \<or> foldEnd b \<le> foldEnd a)"

definition startsBefore :: "FoldingRange \<Rightarrow> FoldingRange \<Rightarrow> bool" where
  "startsBefore a b \<longleftrightarrow> foldStart a < foldStart b"

definition crossing :: "FoldingRange \<Rightarrow> FoldingRange \<Rightarrow> bool" where
  "crossing a b \<longleftrightarrow>
     foldStart a < foldStart b \<and> foldStart b \<le> foldEnd a \<and> foldEnd a < foldEnd b"

text \<open>A line at which the scan of a variables block returns its tables: a section line
  that none of the earlier tests of the loop takes.\<close>

definition blockEndLine :: "provider \<Rightarrow> matcher \<Rightarrow> jstring \<Rightarrow> bool" where
  "blockEndLine P m line \<longleftrightarrow>
     \<not> isMultilineDelimiter line \<and> \<not> startsWith (js ''|'') (dropWhile isSpace line) \<and>
     assignment line = None \<and> regImport m line = None \<and> \<not> isCommentOrTag line \<and>
     \<not> startsWith (js ''*'') (dropWhile isSpace line) \<and> isSection P line = Inr True"

section \<open>Keyword lookup\<close>













text \<open>
  The token sequences \<^verbatim>\<open>findKeyword\<close> is called with are the words of
  \<^verbatim>\<open>splitWords\<close>, the matches of \<^verbatim>\<open>/[^\s]+/g\<close>, and the head of a step with the element
  names put into its placeholders. None of them holds an empty string.
\<close>

lemma splitWords_nonempty: "w \<in> set (splitWords s) \<Longrightarrow> w \<noteq> []"
proof (induction s rule: splitWords.induct)
  case (1 s)
  show ?case
  proof (cases "s = []")
    case True
    with "1.prems" show ?thesis by (subst (asm) splitWords.simps) simp
  next
    case False
    show ?thesis
    proof (cases "wordAt s")
      case None
      with False "1.prems" have "w \<in> set (splitWords (tl s))"
        by (subst (asm) splitWords.simps) simp
      with "1.IH"(1) [OF False None] show ?thesis .
    next
      case (Some n)
      with False "1.prems" have "w = take n s \<or> w \<in> set (splitWords (drop n s))"
        by (subst (asm) splitWords.simps) simp
      then show ?thesis
      proof
        assume "w = take n s"
        with wordAt_pos [OF Some] False show ?thesis by simp
      next
        assume "w \<in> set (splitWords (drop n s))"
        with "1.IH"(2) [OF False Some] show ?thesis .
      qed
    qed
  qed
qed

lemma nonSpaceRuns_nonempty: "w \<in> set (nonSpaceRuns cur s) \<Longrightarrow> w \<noteq> []"
  by (induction cur s rule: nonSpaceRuns.induct) (auto split: if_splits)

lemma elementWord_nonempty: "word \<noteq> [] \<Longrightarrow> elementWord P word \<noteq> []"
  by (simp add: elementWord_def split: option.splits)




text \<open>
  A token that is the empty string is not matched, also by a keyword whose word is empty:
  this is the guard \<^verbatim>\<open>words[i] && ...\<close>. No caller hands such a token over.
\<close>

lemma findKeyword_empty_token:
  "setKeywords sampleParse (js ''[\"\"]'') initialProvider =
     (None, initialProvider\<lparr>keywordList := [[[]]]\<rparr>) \<and>
   ciPrefix [[]] [[]] \<and>
   findKeyword (initialProvider\<lparr>keywordList := [[[]]]\<rparr>) [[]] = None"
  by (simp add: setKeywords_def sampleParse_def js_def byLengthDesc_def toLowerCase_def
      findKeyword_def)

section \<open>A malformed keyword payload\<close>

text \<open>
  Claim C1 says that a call of \<^verbatim>\<open>setKeywords\<close> with an unparsable payload fails and
  leaves the keyword list as it was. The call does fail, but \<^verbatim>\<open>setKeywords\<close> empties the
  list before it parses (\<^verbatim>\<open>setKeypairs\<close>, \<^verbatim>\<open>setMetatags\<close> and \<^verbatim>\<open>setErrorLinks\<close>
  parse first): after the failed call the keyword list is empty, whatever it held.
\<close>

theorem C1_setKeywords_malformed_clears:
  "parse arg = None \<Longrightarrow> setKeywords parse arg P = (Some SyntaxError, P\<lparr>keywordList := []\<rparr>)"
  by (simp add: setKeywords_def)

text \<open>At a concrete input: the keyword \<^verbatim>\<open>when\<close> is registered and found; the payload
  \<^verbatim>\<open>["when"\<close> is then rejected, and the same lookup finds nothing.\<close>

theorem C1_setKeywords_malformed_example:
  "sampleParse (js ''[\"when\"'') = None \<and>
   setKeywords sampleParse (js ''[\"when\"]'') initialProvider =
     (None, initialProvider\<lparr>keywordList := [[js ''when'']]\<rparr>) \<and>
   findKeyword (initialProvider\<lparr>keywordList := [[js ''when'']]\<rparr>) [js ''when''] = Some [js ''when''] \<and>
   setKeywords sampleParse (js ''[\"when\"'') (initialProvider\<lparr>keywordList := [[js ''when'']]\<rparr>) =
     (Some SyntaxError, initialProvider\<lparr>keywordList := []\<rparr>) \<and>
   findKeyword (initialProvider\<lparr>keywordList := []\<rparr>) [js ''when''] = None"
proof -
  have n: "sampleParse (js ''[\"when\"'') = None"
    by (simp add: sampleParse_def js_def)
  have a: "setKeywords sampleParse (js ''[\"when\"]'') initialProvider =
     (None, initialProvider\<lparr>keywordList := [[js ''when'']]\<rparr>)"
    by (simp add: setKeywords_def sampleParse_def js_def byLengthDesc_def toLowerCase_def lowerChar_def)
  have b: "findKeyword (initialProvider\<lparr>keywordList := [[js ''when'']]\<rparr>) [js ''when''] = Some [js ''when'']"
    by code_simp
  have c: "findKeyword (initialProvider\<lparr>keywordList := []\<rparr>) [js ''when''] = None"
    by (simp add: findKeyword_def)
  from n C1_setKeywords_malformed_clears [of sampleParse "js ''[\"when\"''" "initialProvider\<lparr>keywordList := [[js ''when'']]\<rparr>"]
  have "setKeywords sampleParse (js ''[\"when\"'') (initialProvider\<lparr>keywordList := [[js ''when'']]\<rparr>) =
     (Some SyntaxError, initialProvider\<lparr>keywordList := []\<rparr>)" by simp
  with n a b c show ?thesis by simp
qed

section \<open>Line classification\<close>

text \<open>
  Claim C7 gives \<^verbatim>\<open>Comment\<close> to the lines that start with \<^verbatim>\<open>#\<close> or \<^verbatim>\<open>//\<close> and
  \<^verbatim>\<open>Operator\<close> to the rest of the ordinary lines. \<^verbatim>\<open>getToken\<close> tests the class
  \<^verbatim>\<open>[#|//]\<close>, so a line that starts with one slash is a comment for it, where
  \<^verbatim>\<open>checkSyntax\<close> and \<^verbatim>\<open>getLinks\<close> test the alternation \<^verbatim>\<open>(#|@|\/\/)\<close>.
\<close>

theorem C7_getToken_single_slash: "getToken (js ''/ outline'') = Comment"
  by (simp add: getToken_def js_def isSpace_def startsWith_def)

section \<open>Syntax checking: what is flagged\<close>

text \<open>Every problem \<^verbatim>\<open>checkSyntax\<close> collects stands for a line of the document for
  which \<^verbatim>\<open>lineSyntaxError\<close> said yes.\<close>

lemma checkLines_problems_aux:
  "Suc (getLineCount model) - n = k \<Longrightarrow>
   checkLines P model n ml sect acc = Inr problems \<Longrightarrow> p \<in> set problems \<Longrightarrow>
   p \<in> set acc \<or>
   (n \<le> startLineNumber p \<and> startLineNumber p \<le> getLineCount model \<and>
    lineSyntaxError P (getLineContent model (startLineNumber p)) = Inr True)"
proof (induction k arbitrary: n ml sect acc)
  case 0
  then show ?case by (subst (asm) checkLines.simps) simp
next
  case (Suc k)
  from Suc.prems(1) have le: "n \<le> getLineCount model" and k: "Suc (getLineCount model) - Suc n = k"
    by arith+
  note IH = Suc.IH [OF k _ Suc.prems(3)]
  define Q where "Q \<longleftrightarrow> p \<in> set acc \<or>
      (n \<le> startLineNumber p \<and> startLineNumber p \<le> getLineCount model \<and>
       lineSyntaxError P (getLineContent model (startLineNumber p)) = Inr True)"
  have weaken: Q
    if "checkLines P model (Suc n) ml' sect' acc = Inr problems" for ml' sect'
    using IH [OF that] by (auto simp: Q_def)
  have pushed: Q
    if "checkLines P model (Suc n) ml' sect' (acc @ [syntaxProblem P model n]) = Inr problems"
      and "lineSyntaxError P (getLineContent model n) = Inr True" for ml' sect'
    using IH [OF that(1)] that(2) le by (auto simp: syntaxProblem_def Q_def)
  from Suc.prems(2) le have Q
    by (subst (asm) checkLines.simps)
       (auto simp: Let_def split: if_splits sum.splits bool.splits intro: weaken pushed)
  then show ?case by (simp add: Q_def)
qed

lemma checkLines_problems:
  "checkLines P model n ml sect acc = Inr problems \<Longrightarrow> p \<in> set problems \<Longrightarrow>
   p \<in> set acc \<or>
   (n \<le> startLineNumber p \<and> startLineNumber p \<le> getLineCount model \<and>
    lineSyntaxError P (getLineContent model (startLineNumber p)) = Inr True)"
  by (rule checkLines_problems_aux [OF refl])

text \<open>
  Claim C4. Let a line start with the keyword \<open>kw\<close>, and let \<open>words\<close> be what is left of
  its words without the keyword and the trailing comment. If the phrase key of \<open>words\<close>
  without the last word is a known step, and the last word in lower case belongs to the
  keypair list of \<open>kw\<close>, then \<^verbatim>\<open>lineSyntaxError\<close> does not flag the line, and no problem
  that \<^verbatim>\<open>checkSyntax\<close> collects for a document lies on a line with this text.
\<close>

theorem C4_keypair_continuation_valid:
  assumes "findKeyword P (splitWords line) = Some kw"
    and "words = filterLoop (length kw) True (splitWords line)"
    and "objGet (steps P) (key (butlast words)) \<noteq> None"
    and "objGet (keypairs P) (join (js '' '') kw) = Some keypair"
    and "toLowerCase (last words) \<in> set keypair"
  shows "lineSyntaxError P line \<noteq> Inr True \<and>
         (\<forall>model n problems.
            getLineContent model n = line \<longrightarrow>
            checkLines P model 1 False (Some []) [] = Inr problems \<longrightarrow>
            (\<forall>p\<in>set problems. startLineNumber p \<noteq> n))"
proof -
  have ok: "lineSyntaxError P line \<noteq> Inr True"
  proof (cases "words = []")
    case True
    with assms(1,2) show ?thesis
      by (auto simp: lineSyntaxError_def Let_def key_def split: option.splits)
  next
    case False
    then have "words ! (length words - 1) = last words"
      and "take (length words - 1) words = butlast words"
      by (simp_all add: last_conv_nth butlast_conv_take)
    moreover from assms(3) have "truthyProperty (stepAt P (key (butlast words)))"
      by (auto simp: stepAt_def getProperty_def truthyProperty_def)
    ultimately show ?thesis
      using assms by (auto simp: lineSyntaxError_def Let_def split: option.splits)
  qed
  moreover have "startLineNumber p \<noteq> n"
    if "getLineContent model n = line" "checkLines P model 1 False (Some []) [] = Inr problems"
      "p \<in> set problems" for model n problems p
    using checkLines_problems [OF that(2,3)] that(1) ok by auto
  ultimately show ?thesis by blast
qed

text \<open>Scenario C of the specification: with the keyword \<^verbatim>\<open>click\<close>, the step
  \<^verbatim>\<open>click button\<close> and the keypairs \<^verbatim>\<open>click\<close> to \<^verbatim>\<open>twice\<close>, the line
  \<^verbatim>\<open>click button twice\<close> gets no diagnostic, while \<^verbatim>\<open>click button thrice\<close> gets one.\<close>

theorem C4_scenario_C:
  "findKeyword clickProvider (splitWords (js ''click button twice'')) = Some [js ''click''] \<and>
   objGet (keypairs clickProvider) (js ''click'') = Some [js ''twice''] \<and>
   map fst (steps clickProvider) = [js ''button''] \<and>
   lineSyntaxError clickProvider (js ''click button twice'') = Inr False \<and>
   checkLines clickProvider (documentModel (js ''turbo-gherkin'') [js ''click button twice''] [])
     1 False (Some []) [] = Inr [] \<and>
   map startLineNumber (projr
     (checkLines clickProvider (documentModel (js ''turbo-gherkin'') [js ''click button thrice''] [])
        1 False (Some []) [])) = [1]"
proof -
  have w1: "findKeyword clickProvider (splitWords (js ''click button twice'')) = Some [js ''click'']"
    by code_simp
  have w2: "[js ''button'', js ''twice''] =
      filterLoop (length [js ''click'']) True (splitWords (js ''click button twice''))"
    by code_simp
  have w3: "objGet (steps clickProvider) (key (butlast [js ''button'', js ''twice''])) \<noteq> None"
    by code_simp
  have w4: "objGet (keypairs clickProvider) (join (js '' '') [js ''click'']) = Some [js ''twice'']"
    by code_simp
  have w5: "toLowerCase (last [js ''button'', js ''twice'']) \<in> set [js ''twice'']"
    by code_simp
  have e1: "objGet (keypairs clickProvider) (js ''click'') = Some [js ''twice'']"
    by code_simp
  have e2: "map fst (steps clickProvider) = [js ''button'']"
    by code_simp
  have e3: "\<exists>b. lineSyntaxError clickProvider (js ''click button twice'') = Inr b"
    by code_simp
  have e4: "checkLines clickProvider
      (documentModel (js ''turbo-gherkin'') [js ''click button twice''] []) 1 False (Some []) [] = Inr []"
    by code_simp
  have e5: "map startLineNumber (projr
     (checkLines clickProvider (documentModel (js ''turbo-gherkin'') [js ''click button thrice''] [])
        1 False (Some []) [])) = [1]"
    by code_simp
  from C4_keypair_continuation_valid [OF w1 w2 w3 w4 w5]
  have "lineSyntaxError clickProvider (js ''click button twice'') \<noteq> Inr True" by blast
  with e3 have "lineSyntaxError clickProvider (js ''click button twice'') = Inr False" by auto
  with w1 e1 e2 e4 e5 show ?thesis by simp
qed

text \<open>
  Claim C9. For a model whose language is not \<^verbatim>\<open>turbo-gherkin\<close>, \<^verbatim>\<open>checkSyntax\<close>
  returns without an exception and leaves every marker of the editor as it was.
\<close>

theorem C9_checkSyntax_other_language:
  "getModeId model \<noteq> js ''turbo-gherkin'' \<Longrightarrow> checkSyntax P model store = Inr store"
  by (simp add: checkSyntax_def)

text \<open>At a concrete input: a plain-text model with a line the checker would flag, and a
  marker of an earlier run that stays.\<close>

theorem C9_checkSyntax_plaintext_example:
  "getModeId (documentModel (js ''plaintext'') [js ''click button thrice''] []) \<noteq> js ''turbo-gherkin'' \<and>
   checkSyntax clickProvider (documentModel (js ''plaintext'') [js ''click button thrice''] [])
     (\<lambda>owner. [syntaxProblem clickProvider
                  (documentModel (js ''plaintext'') [js ''click button thrice''] []) 1]) =
     Inr (\<lambda>owner. [syntaxProblem clickProvider
                  (documentModel (js ''plaintext'') [js ''click button thrice''] []) 1])"
proof -
  have m: "getModeId (documentModel (js ''plaintext'') [js ''click button thrice''] []) \<noteq>
      js ''turbo-gherkin''"
    by (simp add: documentModel_def js_def)
  from C9_checkSyntax_other_language [OF m] m show ?thesis by simp
qed

section \<open>Completion away from the end of the line\<close>

text \<open>
  Claim C8, as the code has it. Where the cursor is in no placeholder and its column
  lies before the last non-blank column of the line, \<^verbatim>\<open>provideCompletionItems\<close> returns
  what \<^verbatim>\<open>empty(position)\<close> builds: a list of exactly one suggestion, with empty label
  and empty insert text, over the column before the cursor. Columns count from one.
\<close>

theorem C8_completion_before_line_end:
  assumes "\<forall>r\<in>set (findMatches model placeholderSource
              \<lparr>startLineNumber = lineNumber position,
               startColumn = getLineMinColumn model (lineNumber position),
               endLineNumber = lineNumber position,
               endColumn = getLineMaxColumn model (lineNumber position)\<rparr>).
            \<not> (startColumn r \<le> column position \<and> column position \<le> endColumn r)"
    and "0 < column position"
    and "column position < getLineLastNonWhitespaceColumn model (lineNumber position)"
  shows "suggestions (provideCompletionItems P model position) =
           [\<lparr>ciLabel = [], ciKind = KindFunction, ciDetail = None, ciDocumentation = None,
             ciSortText = None, ciInsertText = [], ciFilterText = None,
             ciRange = \<lparr>startLineNumber = lineNumber position,
                        startColumn = column position - 1,
                        endLineNumber = lineNumber position,
                        endColumn = column position\<rparr>\<rparr>]"
proof -
  from assms(1) have "filter (\<lambda>r. startColumn r \<le> column position \<and> column position \<le> endColumn r)
      (findMatches model placeholderSource
              \<lparr>startLineNumber = lineNumber position,
               startColumn = getLineMinColumn model (lineNumber position),
               endLineNumber = lineNumber position,
               endColumn = getLineMaxColumn model (lineNumber position)\<rparr>) = []"
    by (simp add: filter_empty_conv)
  with assms(2,3) show ?thesis
    by (simp add: provideCompletionItems_def Let_def empty_def)
qed

text \<open>At a concrete input: the cursor in column 7 of \<^verbatim>\<open>click button twice\<close>, whose last
  non-blank column is 19.\<close>

theorem C8_completion_example:
  "findMatches (documentModel (js ''turbo-gherkin'') [js ''click button twice''] [])
     placeholderSource
     \<lparr>startLineNumber = 1, startColumn = 1, endLineNumber = 1, endColumn = 19\<rparr> = [] \<and>
   getLineLastNonWhitespaceColumn
     (documentModel (js ''turbo-gherkin'') [js ''click button twice''] []) 1 = 19 \<and>
   map ciLabel (suggestions (provideCompletionItems clickProvider
     (documentModel (js ''turbo-gherkin'') [js ''click button twice''] [])
     \<lparr>lineNumber = 1, column = 7\<rparr>)) = [[]]"
proof -
  let ?m = "documentModel (js ''turbo-gherkin'') [js ''click button twice''] []"
  have a: "findMatches ?m src scope = []" for src scope
    by (simp add: documentModel_def)
  have b: "getLineLastNonWhitespaceColumn ?m 1 = 19"
    by code_simp
  from C8_completion_before_line_end [of ?m "\<lparr>lineNumber = 1, column = 7\<rparr>" clickProvider] a b
  have "suggestions (provideCompletionItems clickProvider ?m \<lparr>lineNumber = 1, column = 7\<rparr>) =
           [\<lparr>ciLabel = [], ciKind = KindFunction, ciDetail = None, ciDocumentation = None,
             ciSortText = None, ciInsertText = [], ciFilterText = None,
             ciRange = \<lparr>startLineNumber = 1, startColumn = 6, endLineNumber = 1, endColumn = 7\<rparr>\<rparr>]"
    by simp
  with a b show ?thesis by simp
qed

text \<open>The claim as it is written says that nothing is offered there. At the same input
  the list of suggestions is not empty.\<close>

theorem C8_one_suggestion_counterexample:
  "findMatches (documentModel (js ''turbo-gherkin'') [js ''click button twice''] [])
     placeholderSource
     \<lparr>startLineNumber = 1, startColumn = 1, endLineNumber = 1, endColumn = 19\<rparr> = [] \<and>
   (7 :: int) < getLineLastNonWhitespaceColumn
     (documentModel (js ''turbo-gherkin'') [js ''click button twice''] []) 1 \<and>
   suggestions (provideCompletionItems clickProvider
     (documentModel (js ''turbo-gherkin'') [js ''click button twice''] [])
     \<lparr>lineNumber = 1, column = 7\<rparr>) \<noteq> []"
proof -
  let ?m = "documentModel (js ''turbo-gherkin'') [js ''click button twice''] []"
  have a: "findMatches ?m src scope = []" for src scope
    by (simp add: documentModel_def)
  have b: "getLineLastNonWhitespaceColumn ?m 1 = 19"
    by code_simp
  have c: "suggestions (provideCompletionItems clickProvider ?m \<lparr>lineNumber = 1, column = 7\<rparr>) \<noteq> []"
    by code_simp
  from a b c show ?thesis by simp
qed

section \<open>Variables\<close>


















text \<open>A variable of the name \<^verbatim>\<open>__proto__\<close> is stored as the prototype of the dictionary
  and not as a property: \<^verbatim>\<open>for ... in\<close> then finds the two fields of the variable, and
  completion offers a suggestion for each, with the name and the value of a string, which
  are undefined.\<close>

lemma variables_prototype_example:
  "variables (snd (setVariables sampleParse (js ''{\"__proto__\": 5}'') False aliceProvider)) =
     variables aliceProvider \<and>
   variablesPrototype (snd (setVariables sampleParse (js ''{\"__proto__\": 5}'') False aliceProvider)) =
     Some \<lparr>varName = js ''__proto__'', varValue = js ''5''\<rparr> \<and>
   map ciLabel (suggestions (provideCompletionItems
     (snd (setVariables sampleParse (js ''{\"__proto__\": 5}'') False aliceProvider)) zzzModel
     \<lparr>lineNumber = 1, column = 9\<rparr>)) =
     [js ''\"User\" = Alice'', js ''\"count\" = 3'',
      js ''\"undefined\" = undefined'', js ''\"undefined\" = undefined'']"
  by code_simp

section \<open>Quick fixes: number, order and threshold\<close>

lemma set_bySumDesc: "set (bySumDesc cs) = set cs"
  by (simp add: bySumDesc_def)

lemma sorted_bySumDesc: "sorted_wrt (\<lambda>a b. candSum b \<le> candSum a) (bySumDesc cs)"
proof -
  have "sorted (map (\<lambda>c. - candSum c) (bySumDesc cs))"
    by (simp add: bySumDesc_def)
  then show ?thesis
    by (simp add: sorted_wrt_map)
qed

text \<open>One diagnostic: the list stays as it is, for a line without a keyword, or it gets
  one candidate for every key of the steps that scores above 0.7 against the phrase key
  of the diagnostic's text, and is sorted again.\<close>

lemma addQuickFix_cases:
  assumes "addQuickFix P rx sim model list e = Inr list'"
  shows "list' = list \<or>
    (\<exists>rng. startLineNumber rng = startLineNumber e \<and> endLineNumber rng = endLineNumber e \<and>
           endColumn rng = endColumn e \<and> 1 \<le> startColumn rng \<and>
       list' = bySumDesc (list @
        map (\<lambda>k. \<lparr>candKey = k,
                   candSum = sim (key (filterWords P (splitWords (diagnosticText model e)))) k,
                   candError = e, candRange = rng,
                   candWords = splitWords (diagnosticText model e)\<rparr>)
          (filter (\<lambda>k. sim (key (filterWords P (splitWords (diagnosticText model e)))) k > 7 / 10)
             (stepKeys P))))"
proof (cases "findKeyword P (splitWords (diagnosticText model e))")
  case None
  with assms show ?thesis by (simp add: addQuickFix_def diagnosticText_def Let_def)
next
  case (Some kw)
  let ?r0 = "\<lparr>startLineNumber = startLineNumber e, startColumn = 1,
             endLineNumber = endLineNumber e, endColumn = endColumn e\<rparr>"
  let ?src = "[94, 91, 92, 115, 93, 42] @ concat (map (\<lambda>w. w @ [91, 92, 115, 93, 43]) kw)"
  show ?thesis
  proof (cases "rx ?src (toLowerCase (diagnosticText model e))")
    case (Inl x)
    with assms Some show ?thesis by (simp add: addQuickFix_def diagnosticText_def Let_def)
  next
    case (Inr found)
    let ?rng = "case found of None \<Rightarrow> ?r0 | Some m \<Rightarrow> ?r0\<lparr>startColumn := int (length m) + 1\<rparr>"
    from assms Some Inr have l: "list' = bySumDesc (list @
        map (\<lambda>k. \<lparr>candKey = k,
                   candSum = sim (key (filterWords P (splitWords (diagnosticText model e)))) k,
                   candError = e, candRange = ?rng,
                   candWords = splitWords (diagnosticText model e)\<rparr>)
          (filter (\<lambda>k. sim (key (filterWords P (splitWords (diagnosticText model e)))) k > 7 / 10)
             (stepKeys P)))"
      by (simp add: addQuickFix_def diagnosticText_def Let_def)
    have "startLineNumber ?rng = startLineNumber e \<and> endLineNumber ?rng = endLineNumber e \<and>
          endColumn ?rng = endColumn e \<and> 1 \<le> startColumn ?rng"
      by (cases found) simp_all
    with l show ?thesis by blast
  qed
qed

lemma addQuickFix_good:
  assumes "addQuickFix P rx sim model list e = Inr list'"
    and "e \<in> set markers"
    and "\<forall>c\<in>set list. goodCandidate P sim model markers c"
    and "sorted_wrt (\<lambda>a b. candSum b \<le> candSum a) list"
  shows "(\<forall>c\<in>set list'. goodCandidate P sim model markers c) \<and>
         sorted_wrt (\<lambda>a b. candSum b \<le> candSum a) list'"
proof -
  from addQuickFix_cases [OF assms(1)] show ?thesis
  proof
    assume "list' = list"
    with assms(3,4) show ?thesis by simp
  next
    let ?words = "splitWords (diagnosticText model e)"
    assume "\<exists>rng. startLineNumber rng = startLineNumber e \<and> endLineNumber rng = endLineNumber e \<and>
           endColumn rng = endColumn e \<and> 1 \<le> startColumn rng \<and>
       list' = bySumDesc (list @
        map (\<lambda>k. \<lparr>candKey = k, candSum = sim (key (filterWords P ?words)) k,
                   candError = e, candRange = rng, candWords = ?words\<rparr>)
          (filter (\<lambda>k. sim (key (filterWords P ?words)) k > 7 / 10) (stepKeys P)))"
    then obtain rng where r: "startLineNumber rng = startLineNumber e"
        "endLineNumber rng = endLineNumber e" "endColumn rng = endColumn e" "1 \<le> startColumn rng"
      and l: "list' = bySumDesc (list @
        map (\<lambda>k. \<lparr>candKey = k, candSum = sim (key (filterWords P ?words)) k,
                   candError = e, candRange = rng, candWords = ?words\<rparr>)
          (filter (\<lambda>k. sim (key (filterWords P ?words)) k > 7 / 10) (stepKeys P)))"
      by blast
    have "goodCandidate P sim model markers c" if "c \<in> set list'" for c
    proof -
      from that l have "c \<in> set list \<or>
        (\<exists>k. k \<in> set (stepKeys P) \<and> sim (key (filterWords P ?words)) k > 7 / 10 \<and>
           c = \<lparr>candKey = k, candSum = sim (key (filterWords P ?words)) k,
                 candError = e, candRange = rng, candWords = ?words\<rparr>)"
        by (auto simp: set_bySumDesc)
      then show ?thesis
      proof
        assume "c \<in> set list"
        with assms(3) show ?thesis by blast
      next
        assume "\<exists>k. k \<in> set (stepKeys P) \<and> sim (key (filterWords P ?words)) k > 7 / 10 \<and>
           c = \<lparr>candKey = k, candSum = sim (key (filterWords P ?words)) k,
                 candError = e, candRange = rng, candWords = ?words\<rparr>"
        with r assms(2) show ?thesis by (auto simp: goodCandidate_def)
      qed
    qed
    with l show ?thesis by (simp add: sorted_bySumDesc)
  qed
qed

lemma addQuickFixes_good:
  assumes "addQuickFixes P rx sim model list es = Inr list'"
    and "set es \<subseteq> set markers"
    and "\<forall>c\<in>set list. goodCandidate P sim model markers c"
    and "sorted_wrt (\<lambda>a b. candSum b \<le> candSum a) list"
  shows "(\<forall>c\<in>set list'. goodCandidate P sim model markers c) \<and>
         sorted_wrt (\<lambda>a b. candSum b \<le> candSum a) list'"
  using assms
proof (induction es arbitrary: list)
  case Nil
  then show ?case by simp
next
  case (Cons e es)
  from Cons.prems(1) obtain l1 where a: "addQuickFix P rx sim model list e = Inr l1"
    and b: "addQuickFixes P rx sim model l1 es = Inr list'"
    by (auto split: sum.splits)
  from Cons.prems(2) have e: "e \<in> set markers" and es: "set es \<subseteq> set markers" by simp_all
  from addQuickFix_good [OF a e Cons.prems(3,4)] Cons.IH [OF b es] show ?case by blast
qed

lemma fixActions_all2:
  "fixActions P model cs = Inr acts \<Longrightarrow>
   list_all2 (\<lambda>a c. \<exists>stp. stepAt P (candKey c) = Entry stp \<and> a = fixAction P model stp c)
     acts cs"
  by (induction cs arbitrary: acts) (auto split: property.splits sum.splits)

text \<open>While the steps have the prototype of every object, the quick fix returns whenever
  the keyword expression can be built: the key of every candidate is then an own key of
  the steps, so the step of a candidate is always found.\<close>

lemma addQuickFix_returns:
  assumes "\<forall>s t. \<exists>r. regexpMatch s t = Inr r"
  shows "\<exists>list'. addQuickFix P regexpMatch distance model list e = Inr list'"
proof (cases "findKeyword P (splitWords (getValueInRange model
         \<lparr>startLineNumber = startLineNumber e, startColumn = 1,
          endLineNumber = endLineNumber e, endColumn = endColumn e\<rparr>))")
  case None
  then show ?thesis by (simp add: addQuickFix_def Let_def)
next
  case (Some kw)
  from assms obtain r where
    "regexpMatch ([94, 91, 92, 115, 93, 42] @ concat (map (\<lambda>w. w @ [91, 92, 115, 93, 43]) kw))
       (toLowerCase (getValueInRange model
         \<lparr>startLineNumber = startLineNumber e, startColumn = 1,
          endLineNumber = endLineNumber e, endColumn = endColumn e\<rparr>)) = Inr r"
    by blast
  with Some show ?thesis by (simp add: addQuickFix_def Let_def)
qed

lemma addQuickFixes_returns:
  assumes "\<forall>s t. \<exists>r. regexpMatch s t = Inr r"
  shows "\<exists>list'. addQuickFixes P regexpMatch distance model list es = Inr list'"
proof (induction es arbitrary: list)
  case Nil
  show ?case by simp
next
  case (Cons e es)
  from addQuickFix_returns [OF assms] obtain l where
    "addQuickFix P regexpMatch distance model list e = Inr l" by blast
  with Cons [of l] show ?case by simp
qed

lemma stepAt_own: "k \<in> fst ` set (steps P) \<Longrightarrow> \<exists>stp. stepAt P k = Entry stp"
proof -
  assume "k \<in> fst ` set (steps P)"
  then have "map_of (steps P) k \<noteq> None" by (simp add: map_of_eq_None_iff)
  then show ?thesis by (auto simp: stepAt_def getProperty_def objGet_def)
qed

lemma fixActions_returns:
  "\<forall>c\<in>set cs. candKey c \<in> fst ` set (steps P) \<Longrightarrow> \<exists>acts. fixActions P model cs = Inr acts"
proof (induction cs)
  case Nil
  show ?case by simp
next
  case (Cons c cs)
  then have "candKey c \<in> fst ` set (steps P)" by simp
  from stepAt_own [OF this] obtain stp where "stepAt P (candKey c) = Entry stp" by blast
  moreover from Cons obtain acts where "fixActions P model cs = Inr acts" by auto
  ultimately show ?case by simp
qed

lemma getQuickFix_returns:
  assumes "\<forall>s t. \<exists>r. regexpMatch s t = Inr r" and "stepsPrototype P = None"
  shows "\<exists>acts. getQuickFix P regexpMatch distance model markers = Inr acts"
proof -
  from addQuickFixes_returns [OF assms(1)] obtain l where
    l: "addQuickFixes P regexpMatch distance model [] markers = Inr l" by blast
  from addQuickFixes_good [OF l order_refl]
  have "\<forall>c\<in>set l. goodCandidate P distance model markers c" by simp
  with assms(2) have "\<forall>c\<in>set (take 7 l). candKey c \<in> fst ` set (steps P)"
    by (auto simp: goodCandidate_def stepKeys_def forInKeys_def inheritedKeys_def dest: in_set_takeD)
  from fixActions_returns [OF this] l show ?thesis by (simp add: getQuickFix_def)
qed

text \<open>
  Claim C3, as the code has it. Where the quick fix returns, it returns at most seven
  actions, all marked preferred; they are built, in order, from the first seven of the
  candidates accumulated over all diagnostics. Every candidate belongs to one of the
  diagnostics: its words are the words of the text of that diagnostic's line up to the
  end of the diagnostic, its key is one of the keys of the steps, its score is the
  similarity of the phrase key of these words to that key and lies above 0.7, and its
  range lies on the line of the diagnostic and ends where the diagnostic ends. The
  candidates are in descending order of score, where equal scores may follow each other.
\<close>

theorem C3_quick_fix_actions:
  assumes "getQuickFix P regexpMatch distance model markers = Inr actions"
  shows "length actions \<le> 7 \<and> (\<forall>a\<in>set actions. isPreferred a) \<and>
    (\<exists>cands. addQuickFixes P regexpMatch distance model [] markers = Inr cands \<and>
       list_all2 (\<lambda>a c. \<exists>stp. stepAt P (candKey c) = Entry stp \<and>
                              a = fixAction P model stp c) actions (take 7 cands) \<and>
       sorted_wrt (\<lambda>a b. candSum b \<le> candSum a) cands \<and>
       (\<forall>c\<in>set cands. goodCandidate P distance model markers c))"
proof -
  from assms obtain cands where c: "addQuickFixes P regexpMatch distance model [] markers = Inr cands"
    and f: "fixActions P model (take 7 cands) = Inr actions"
    by (auto simp: getQuickFix_def split: sum.splits)
  note all2 = fixActions_all2 [OF f]
  from all2 have len: "length actions = length (take 7 cands)"
    by (rule list_all2_lengthD)
  have pref: "isPreferred a" if "a \<in> set actions" for a
  proof -
    from that all2 obtain c stp where "a = fixAction P model stp c"
      by (auto simp: list_all2_conv_all_nth in_set_conv_nth)
    then show ?thesis by (simp add: fixAction_def Let_def)
  qed
  from addQuickFixes_good [OF c order_refl]
  have "(\<forall>c\<in>set cands. goodCandidate P distance model markers c) \<and>
         sorted_wrt (\<lambda>a b. candSum b \<le> candSum a) cands" by simp
  with c all2 len pref show ?thesis by auto
qed

text \<open>At a concrete input: eight diagnostics for the flagged line
  \<^verbatim>\<open>click button thrice\<close> give eight candidates and seven actions; each action
  replaces, behind the keyword, the text of its diagnostic by the step.\<close>

theorem C3_quick_fix_example:
  "map candSum (projr (addQuickFixes clickProvider sampleRegexpMatch prefixSimilarity thriceModel []
     (replicate 8 (syntaxProblem clickProvider thriceModel 1)))) = replicate 8 (9 / 10) \<and>
   map title (projr (getQuickFix clickProvider sampleRegexpMatch prefixSimilarity thriceModel
     (replicate 8 (syntaxProblem clickProvider thriceModel 1)))) = replicate 7 (js ''button'') \<and>
   map editRange (projr (getQuickFix clickProvider sampleRegexpMatch prefixSimilarity thriceModel
     (replicate 8 (syntaxProblem clickProvider thriceModel 1)))) =
     replicate 7 \<lparr>startLineNumber = 1, startColumn = 7, endLineNumber = 1, endColumn = 20\<rparr> \<and>
   list_all isPreferred (projr (getQuickFix clickProvider sampleRegexpMatch prefixSimilarity
     thriceModel (replicate 8 (syntaxProblem clickProvider thriceModel 1))))"
proof -
  let ?ms = "replicate 8 (syntaxProblem clickProvider thriceModel 1)"
  let ?q = "getQuickFix clickProvider sampleRegexpMatch prefixSimilarity thriceModel ?ms"
  have "\<not> isl ?q" by code_simp
  then have q: "?q = Inr (projr ?q)" by simp
  from C3_quick_fix_actions [OF q] have "list_all isPreferred (projr ?q)"
    by (simp add: list_all_iff)
  moreover have "map candSum (projr (addQuickFixes clickProvider sampleRegexpMatch
      prefixSimilarity thriceModel [] ?ms)) = replicate 8 (9 / 10)"
    by code_simp
  moreover have "map title (projr ?q) = replicate 7 (js ''button'')"
    by code_simp
  moreover have "map editRange (projr ?q) =
     replicate 7 \<lparr>startLineNumber = 1, startColumn = 7, endLineNumber = 1, endColumn = 20\<rparr>"
    by code_simp
  ultimately show ?thesis by simp
qed

text \<open>The claim as it is written has the actions strictly ordered by descending score.
  The two diagnostics \<^verbatim>\<open>checkSyntax\<close> sets for a document with the same flagged line
  twice give two candidates, hence two actions, of one and the same score.\<close>

theorem C3_equal_scores_counterexample:
  "map startLineNumber (projr (checkLines clickProvider thriceModel 1 False (Some []) [])) = [1, 2] \<and>
   map candSum (projr (addQuickFixes clickProvider sampleRegexpMatch prefixSimilarity thriceModel []
     [syntaxProblem clickProvider thriceModel 1, syntaxProblem clickProvider thriceModel 2])) =
     [9 / 10, 9 / 10] \<and>
   map title (projr (getQuickFix clickProvider sampleRegexpMatch prefixSimilarity thriceModel
     [syntaxProblem clickProvider thriceModel 1, syntaxProblem clickProvider thriceModel 2])) =
     [js ''button'', js ''button'']"
  by code_simp

section \<open>Folding ranges\<close>

text \<open>What each inner loop of the second pass returns: the last line of the run, and for
  sections and operators that no longer run would do.\<close>

lemma scanSame_run:
  "k < j \<Longrightarrow> r = scanSame lines lineCount tok j k \<Longrightarrow>
   r = k \<or> (j \<le> r \<and> r \<le> lineCount \<and> (\<forall>l. j \<le> l \<and> l \<le> r \<longrightarrow> token (lines ! l) = tok))"
proof (induction lines lineCount tok j k arbitrary: r rule: scanSame.induct)
  case (1 lines lineCount tok j k)
  show ?case
  proof (cases "j \<le> lineCount \<and> token (lines ! j) = tok")
    case False
    with "1.prems" show ?thesis by (subst (asm) scanSame.simps) auto
  next
    case True
    with "1.prems" have r: "r = scanSame lines lineCount tok (Suc j) j"
      by (subst (asm) scanSame.simps) simp
    from "1.IH" [OF _ _ _ r] True
    have "r = j \<or> (Suc j \<le> r \<and> r \<le> lineCount \<and> (\<forall>l. Suc j \<le> l \<and> l \<le> r \<longrightarrow> token (lines ! l) = tok))"
      by simp
    with True show ?thesis
      by (metis Suc_leD le_antisym not_less_eq_eq order_refl)
  qed
qed

lemma scanSection_run:
  "k < j \<Longrightarrow> r = scanSection lines lineCount j k \<Longrightarrow>
   (r = k \<or> (j \<le> r \<and> r \<le> lineCount)) \<and>
   (\<forall>l. j \<le> l \<and> l \<le> r \<longrightarrow> token (lines ! l) \<noteq> Section) \<and>
   (\<forall>l. j \<le> l \<and> l \<le> lineCount \<and> (\<forall>m. j \<le> m \<and> m \<le> l \<longrightarrow> token (lines ! m) \<noteq> Section)
        \<longrightarrow> l \<le> r)"
proof (induction lines lineCount j k arbitrary: r rule: scanSection.induct)
  case (1 lines lineCount j k)
  show ?case
  proof (cases "j \<le> lineCount")
    case False
    with "1.prems" show ?thesis by (subst (asm) scanSection.simps) auto
  next
    case le: True
    show ?thesis
    proof (cases "token (lines ! j) = Section")
      case True
      with le "1.prems" have "r = k" by (subst (asm) scanSection.simps) simp
      with True "1.prems"(1) show ?thesis by auto
    next
      case False
      with le "1.prems" have r: "r = scanSection lines lineCount (Suc j) j"
        by (subst (asm) scanSection.simps) simp
      from "1.IH" [OF le False _ r]
      have a: "r = j \<or> (Suc j \<le> r \<and> r \<le> lineCount)"
        and b: "\<forall>l. Suc j \<le> l \<and> l \<le> r \<longrightarrow> token (lines ! l) \<noteq> Section"
        and c: "\<forall>l. Suc j \<le> l \<and> l \<le> lineCount \<and>
                 (\<forall>m. Suc j \<le> m \<and> m \<le> l \<longrightarrow> token (lines ! m) \<noteq> Section) \<longrightarrow> l \<le> r"
        by simp_all
      from a le have 1: "r = k \<or> (j \<le> r \<and> r \<le> lineCount)" by auto
      have 2: "token (lines ! l) \<noteq> Section" if "j \<le> l \<and> l \<le> r" for l
      proof (cases "l = j")
        case True
        with False show ?thesis by simp
      next
        case False
        with that b show ?thesis by (simp add: Suc_le_eq)
      qed
      have 3: "l \<le> r"
        if "j \<le> l \<and> l \<le> lineCount \<and> (\<forall>m. j \<le> m \<and> m \<le> l \<longrightarrow> token (lines ! m) \<noteq> Section)" for l
      proof (cases "l = j")
        case True
        with a show ?thesis by auto
      next
        case False
        with that have "Suc j \<le> l \<and> l \<le> lineCount \<and>
                 (\<forall>m. Suc j \<le> m \<and> m \<le> l \<longrightarrow> token (lines ! m) \<noteq> Section)"
          by (simp add: Suc_le_eq)
        with c show ?thesis by blast
      qed
      from 1 2 3 show ?thesis by blast
    qed
  qed
qed

lemma scanOperator_run_aux:
  "Suc lineCount - j = n \<Longrightarrow> k < j \<Longrightarrow> r = scanOperator lines lineCount ind j k \<Longrightarrow>
   (r = k \<or> (j \<le> r \<and> r \<le> lineCount \<and> token (lines ! r) \<noteq> Empty)) \<and>
   (\<forall>l. j \<le> l \<and> l \<le> r \<longrightarrow> \<not> stops lines ind l) \<and>
   (\<forall>l. j \<le> l \<and> l \<le> lineCount \<and> (\<forall>m. j \<le> m \<and> m \<le> l \<longrightarrow> \<not> stops lines ind m) \<and>
        token (lines ! l) \<noteq> Empty \<longrightarrow> l \<le> r)"
proof (induction n arbitrary: j k r)
  case 0
  then have "\<not> j \<le> lineCount" by arith
  with 0 show ?case by (subst (asm) scanOperator.simps) auto
next
  case (Suc n)
  from Suc.prems(1) have le: "j \<le> lineCount" and n: "Suc lineCount - Suc j = n" by arith+
  show ?case
  proof (cases "stops lines ind j")
    case True
    with le Suc.prems(3) have "r = k"
      by (subst (asm) scanOperator.simps) (auto simp: stops_def Let_def)
    with True Suc.prems(2) show ?thesis by auto
  next
    case ns: False
    show ?thesis
    proof (cases "token (lines ! j) = Empty")
      case True
      with le ns Suc.prems(3) have r: "r = scanOperator lines lineCount ind (Suc j) k"
        by (subst (asm) scanOperator.simps) (auto simp: stops_def Let_def)
      from Suc.prems(2) have "k < Suc j" by simp
      from Suc.IH [OF n this r]
      have a: "r = k \<or> (Suc j \<le> r \<and> r \<le> lineCount \<and> token (lines ! r) \<noteq> Empty)"
        and b: "\<forall>l. Suc j \<le> l \<and> l \<le> r \<longrightarrow> \<not> stops lines ind l"
        and c: "\<forall>l. Suc j \<le> l \<and> l \<le> lineCount \<and>
                  (\<forall>m. Suc j \<le> m \<and> m \<le> l \<longrightarrow> \<not> stops lines ind m) \<and>
                  token (lines ! l) \<noteq> Empty \<longrightarrow> l \<le> r"
        by simp_all
      from a have 1: "r = k \<or> (j \<le> r \<and> r \<le> lineCount \<and> token (lines ! r) \<noteq> Empty)" by auto
      have 2: "\<not> stops lines ind l" if "j \<le> l \<and> l \<le> r" for l
        using that b ns by (cases "l = j") (simp_all add: Suc_le_eq)
      have 3: "l \<le> r"
        if "j \<le> l \<and> l \<le> lineCount \<and> (\<forall>m. j \<le> m \<and> m \<le> l \<longrightarrow> \<not> stops lines ind m) \<and>
            token (lines ! l) \<noteq> Empty" for l
      proof -
        from that True have "l \<noteq> j" by auto
        with that have "Suc j \<le> l \<and> l \<le> lineCount \<and>
                  (\<forall>m. Suc j \<le> m \<and> m \<le> l \<longrightarrow> \<not> stops lines ind m) \<and>
                  token (lines ! l) \<noteq> Empty"
          by (simp add: Suc_le_eq)
        with c show ?thesis by blast
      qed
      from 1 2 3 show ?thesis by blast
    next
      case ne: False
      with le ns Suc.prems(3) have r: "r = scanOperator lines lineCount ind (Suc j) j"
        by (subst (asm) scanOperator.simps) (auto simp: stops_def Let_def)
      from Suc.IH [OF n _ r]
      have a: "r = j \<or> (Suc j \<le> r \<and> r \<le> lineCount \<and> token (lines ! r) \<noteq> Empty)"
        and b: "\<forall>l. Suc j \<le> l \<and> l \<le> r \<longrightarrow> \<not> stops lines ind l"
        and c: "\<forall>l. Suc j \<le> l \<and> l \<le> lineCount \<and>
                  (\<forall>m. Suc j \<le> m \<and> m \<le> l \<longrightarrow> \<not> stops lines ind m) \<and>
                  token (lines ! l) \<noteq> Empty \<longrightarrow> l \<le> r"
        by simp_all
      from a le ne have 1: "r = k \<or> (j \<le> r \<and> r \<le> lineCount \<and> token (lines ! r) \<noteq> Empty)"
        by auto
      have 2: "\<not> stops lines ind l" if "j \<le> l \<and> l \<le> r" for l
        using that b ns by (cases "l = j") (simp_all add: Suc_le_eq)
      have 3: "l \<le> r"
        if "j \<le> l \<and> l \<le> lineCount \<and> (\<forall>m. j \<le> m \<and> m \<le> l \<longrightarrow> \<not> stops lines ind m) \<and>
            token (lines ! l) \<noteq> Empty" for l
      proof (cases "l = j")
        case True
        with a show ?thesis by auto
      next
        case False
        with that have "Suc j \<le> l \<and> l \<le> lineCount \<and>
                  (\<forall>m. Suc j \<le> m \<and> m \<le> l \<longrightarrow> \<not> stops lines ind m) \<and>
                  token (lines ! l) \<noteq> Empty"
          by (simp add: Suc_le_eq)
        with c show ?thesis by blast
      qed
      from 1 2 3 show ?thesis by blast
    qed
  qed
qed

lemma scanOperator_run:
  assumes "r = scanOperator lines lineCount ind (Suc i) i"
  shows "i \<le> r" and "r \<le> max i lineCount" and "i < r \<Longrightarrow> token (lines ! r) \<noteq> Empty"
    and "i < l \<Longrightarrow> l \<le> r \<Longrightarrow> \<not> stops lines ind l"
    and "i < l \<Longrightarrow> l \<le> lineCount \<Longrightarrow> (\<forall>m. i < m \<and> m \<le> l \<longrightarrow> \<not> stops lines ind m) \<Longrightarrow>
         token (lines ! l) \<noteq> Empty \<Longrightarrow> l \<le> r"
  using scanOperator_run_aux [OF refl _ assms] by (auto simp: Suc_le_eq)

lemma scanSection_run':
  assumes "r = scanSection lines lineCount (Suc i) i"
  shows "i \<le> r" and "r \<le> max i lineCount"
    and "i < l \<Longrightarrow> l \<le> r \<Longrightarrow> token (lines ! l) \<noteq> Section"
    and "i < l \<Longrightarrow> l \<le> lineCount \<Longrightarrow> (\<forall>m. i < m \<and> m \<le> l \<longrightarrow> token (lines ! m) \<noteq> Section)
         \<Longrightarrow> l \<le> r"
  using scanSection_run [OF _ assms] by (auto simp: Suc_le_eq)

lemma scanSame_run':
  assumes "r = scanSame lines lineCount tok (Suc i) i"
  shows "i \<le> r" and "r \<le> max i lineCount"
    and "i < l \<Longrightarrow> l \<le> r \<Longrightarrow> token (lines ! l) = tok"
  using scanSame_run [OF _ assms] by (auto simp: Suc_le_eq)

text \<open>A fold that starts inside the fold of a section or of an operator line ends inside
  it. For operators, every indent has to be a number, and the indent of an instruction
  line is nought, as \<^verbatim>\<open>getCodeFolding\<close> sets it.\<close>

lemma blockEnd_le: "i \<le> lineCount \<Longrightarrow> blockEnd lines lineCount i \<le> lineCount"
  using scanSame_run'(2) [OF refl, of lines lineCount _ i]
    scanSection_run'(2) [OF refl, of lines lineCount i]
    scanOperator_run(2) [OF refl, of lines lineCount _ i]
  by (auto simp: blockEnd_def split: VAToken.splits)

lemma blockEnd_no_section:
  assumes "s < l" and "l \<le> blockEnd lines lineCount s"
  shows "token (lines ! l) \<noteq> Section"
proof (cases "token (lines ! s)")
  case Instruction
  with assms scanSame_run'(3) [OF refl, of s l lines lineCount Instruction] show ?thesis
    by (simp add: blockEnd_def)
next
  case Comment
  with assms scanSame_run'(3) [OF refl, of s l lines lineCount Comment] show ?thesis
    by (simp add: blockEnd_def)
next
  case Section
  with assms scanSection_run'(3) [OF refl, of s l lines lineCount] show ?thesis
    by (simp add: blockEnd_def)
next
  case Operator
  with assms scanOperator_run(4) [OF refl, of s l lines lineCount "indent (lines ! s)"] show ?thesis
    by (simp add: blockEnd_def stops_def)
qed (use assms in \<open>simp_all add: blockEnd_def\<close>)

lemma nested_in_section:
  assumes "token (lines ! i) = Section" and "i < s" and "s \<le> blockEnd lines lineCount i"
    and "s \<le> lineCount"
  shows "blockEnd lines lineCount s \<le> blockEnd lines lineCount i"
proof -
  let ?e1 = "scanSection lines lineCount (Suc i) i"
  let ?e2 = "blockEnd lines lineCount s"
  from assms(1) have e1: "blockEnd lines lineCount i = ?e1" by (simp add: blockEnd_def)
  have s_le: "s \<le> ?e2" by (rule blockEnd_ge)
  have "token (lines ! m) \<noteq> Section" if "i < m \<and> m \<le> ?e2" for m
  proof (cases "m \<le> s")
    case True
    with that assms(3) e1 scanSection_run'(3) [OF refl, of i m lines lineCount] show ?thesis
      by simp
  next
    case False
    with that blockEnd_no_section [of s m lines lineCount] show ?thesis by simp
  qed
  moreover from assms(2) s_le have "i < ?e2" by simp
  moreover from assms(4) have "?e2 \<le> lineCount" by (rule blockEnd_le)
  ultimately have "?e2 \<le> ?e1"
    using scanSection_run'(4) [OF refl, of i ?e2 lineCount lines] by blast
  with e1 show ?thesis by simp
qed

lemma stops_mono:
  "\<not> stops lines (Some d2) l \<Longrightarrow> d \<le> d2 \<Longrightarrow> \<not> stops lines (Some d) l"
  by (auto simp: stops_def numLe_def split: option.splits)

lemma nested_in_operator:
  assumes wf: "wellIndented lines lineCount"
    and op: "token (lines ! i) = Operator" and "i < s" and "s \<le> blockEnd lines lineCount i"
    and "s \<le> lineCount" and "i \<le> lineCount"
  shows "blockEnd lines lineCount s \<le> blockEnd lines lineCount i"
proof -
  from wf assms(6) obtain d where d: "indent (lines ! i) = Some d"
    by (auto simp: wellIndented_def)
  from wf assms(5) obtain d2 where d2: "indent (lines ! s) = Some d2"
    and ins: "token (lines ! s) = Instruction \<Longrightarrow> d2 = 0"
    by (auto simp: wellIndented_def)
  let ?e1 = "scanOperator lines lineCount (Some d) (Suc i) i"
  let ?e2 = "blockEnd lines lineCount s"
  from op d have e1: "blockEnd lines lineCount i = ?e1" by (simp add: blockEnd_def)
  have inside: "\<not> stops lines (Some d) m" if "i < m" "m \<le> s" for m
    using that assms(4) e1 scanOperator_run(4) [OF refl, of i m lines lineCount "Some d"] by simp
  from inside [of s] assms(3) have ns: "\<not> stops lines (Some d) s" by simp
  have s_le: "s \<le> ?e2" by (rule blockEnd_ge)
  from assms(5) have e2_le: "?e2 \<le> lineCount" by (rule blockEnd_le)
  have max: "?e2 \<le> ?e1"
    if "\<And>m. s < m \<Longrightarrow> m \<le> ?e2 \<Longrightarrow> \<not> stops lines (Some d) m" "token (lines ! ?e2) \<noteq> Empty"
  proof -
    have "\<not> stops lines (Some d) m" if "i < m \<and> m \<le> ?e2" for m
      using that inside [of m] \<open>\<And>m. s < m \<Longrightarrow> m \<le> ?e2 \<Longrightarrow> \<not> stops lines (Some d) m\<close> [of m]
      by (cases "m \<le> s") simp_all
    moreover from assms(3) s_le have "i < ?e2" by simp
    ultimately show ?thesis
      using scanOperator_run(5) [OF refl, of i ?e2 lineCount lines "Some d"] e2_le that(2) by blast
  qed
  have "?e2 \<le> ?e1"
  proof (cases "token (lines ! s)")
    case Empty
    then have "?e2 = s" by (simp add: blockEnd_def)
    with assms(4) e1 show ?thesis by simp
  next
    case Multiline
    then have "?e2 = s" by (simp add: blockEnd_def)
    with assms(4) e1 show ?thesis by simp
  next
    case Parameter
    then have "?e2 = s" by (simp add: blockEnd_def)
    with assms(4) e1 show ?thesis by simp
  next
    case Section
    with ns show ?thesis by (simp add: stops_def)
  next
    case Instruction
    with ns ins d2 show ?thesis by (simp add: stops_def numLe_def)
  next
    case Comment
    then have e2: "?e2 = scanSame lines lineCount Comment (Suc s) s" by (simp add: blockEnd_def)
    have c: "token (lines ! m) = Comment" if "s < m" "m \<le> ?e2" for m
      using that e2 scanSame_run'(3) [OF refl, of s m lines lineCount Comment] by simp
    have "token (lines ! ?e2) = Comment"
      using c [of ?e2] s_le Comment by (cases "s = ?e2") auto
    then show ?thesis
      using c by (intro max) (auto simp: stops_def)
  next
    case Operator
    with d2 have e2: "?e2 = scanOperator lines lineCount (Some d2) (Suc s) s"
      by (simp add: blockEnd_def)
    from ns Operator d2 have dd: "d \<le> d2" by (simp add: stops_def numLe_def)
    show ?thesis
    proof (cases "s = ?e2")
      case True
      with assms(4) e1 show ?thesis by simp
    next
      case False
      with s_le have lt: "s < ?e2" by simp
      have a: "\<not> stops lines (Some d) m" if "s < m" "m \<le> ?e2" for m
      proof -
        from that e2 have "\<not> stops lines (Some d2) m"
          using scanOperator_run(4) [OF refl, of s m lines lineCount "Some d2"] by simp
        then show ?thesis using dd by (rule stops_mono)
      qed
      have b: "token (lines ! ?e2) \<noteq> Empty"
        using lt e2 scanOperator_run(3) [OF refl, of s lines lineCount "Some d2"] by simp
      from a b show ?thesis by (rule max)
    qed
  qed
  with e1 show ?thesis by simp
qed

text \<open>The folds of the second pass, one for each line it visits whose block is longer
  than one line, in the order of their first lines.\<close>

lemma foldLoop_unfold:
  "i \<le> lineCount \<Longrightarrow>
   foldLoop lines lineCount i acc =
     foldLoop lines lineCount
       (Suc (if token (lines ! i) = Instruction \<or> token (lines ! i) = Comment
             then blockEnd lines lineCount i else i))
       (if i < blockEnd lines lineCount i then acc @ [foldAt lines lineCount i] else acc)"
  by (subst foldLoop.simps) (simp add: Let_def foldAt_def)

lemma foldLoop_done: "\<not> i \<le> lineCount \<Longrightarrow> foldLoop lines lineCount i acc = acc"
  by (subst foldLoop.simps) simp

lemma foldLoop_append_aux:
  "Suc lineCount - i = n \<Longrightarrow>
   foldLoop lines lineCount i acc = acc @ foldLoop lines lineCount i []"
proof (induction n arbitrary: i acc rule: less_induct)
  case (less n)
  show ?case
  proof (cases "i \<le> lineCount")
    case False
    then show ?thesis by (simp add: foldLoop_done)
  next
    case True
    let ?i' = "Suc (if token (lines ! i) = Instruction \<or> token (lines ! i) = Comment
             then blockEnd lines lineCount i else i)"
    have "i < ?i'" using blockEnd_ge [of i lines lineCount] by auto
    with True less.prems have m: "Suc lineCount - ?i' < n" by arith
    from less.IH [OF m refl]
    have "\<And>acc. foldLoop lines lineCount ?i' acc = acc @ foldLoop lines lineCount ?i' []" .
    note ih = this
    let ?a = "if i < blockEnd lines lineCount i then [foldAt lines lineCount i] else []"
    have e1: "foldLoop lines lineCount i acc = foldLoop lines lineCount ?i' (acc @ ?a)"
      by (subst foldLoop_unfold [OF True]) simp
    have e2: "foldLoop lines lineCount i [] = foldLoop lines lineCount ?i' ?a"
      by (subst foldLoop_unfold [OF True]) simp
    from ih [of "acc @ ?a"] ih [of ?a] e1 e2 show ?thesis by simp
  qed
qed

lemma foldLoop_append:
  "foldLoop lines lineCount i acc = acc @ foldLoop lines lineCount i []"
  by (rule foldLoop_append_aux [OF refl])

lemma foldLoop_step:
  "i \<le> lineCount \<Longrightarrow>
   foldLoop lines lineCount i [] =
     (if i < blockEnd lines lineCount i then [foldAt lines lineCount i] else []) @
     foldLoop lines lineCount
       (Suc (if token (lines ! i) = Instruction \<or> token (lines ! i) = Comment
             then blockEnd lines lineCount i else i)) []"
  by (subst foldLoop_unfold, assumption, subst foldLoop_append) simp

lemma foldLoop_members_aux:
  "Suc lineCount - i = n \<Longrightarrow> r \<in> set (foldLoop lines lineCount i []) \<Longrightarrow>
   (\<exists>s. i \<le> s \<and> s \<le> lineCount \<and> s < blockEnd lines lineCount s \<and> r = foldAt lines lineCount s)"
proof (induction n arbitrary: i rule: less_induct)
  case (less n)
  show ?case
  proof (cases "i \<le> lineCount")
    case False
    with less.prems show ?thesis by (simp add: foldLoop_done)
  next
    case True
    let ?i' = "Suc (if token (lines ! i) = Instruction \<or> token (lines ! i) = Comment
             then blockEnd lines lineCount i else i)"
    have lt: "i < ?i'" using blockEnd_ge [of i lines lineCount] by auto
    with True less.prems have m: "Suc lineCount - ?i' < n" by arith
    from less.prems(2) have "(i < blockEnd lines lineCount i \<and> r = foldAt lines lineCount i) \<or>
        r \<in> set (foldLoop lines lineCount ?i' [])"
      by (subst (asm) foldLoop_step [OF True]) (auto split: if_splits)
    then show ?thesis
    proof
      assume "i < blockEnd lines lineCount i \<and> r = foldAt lines lineCount i"
      with True show ?thesis by blast
    next
      assume "r \<in> set (foldLoop lines lineCount ?i' [])"
      from less.IH [OF m refl this] obtain s where "?i' \<le> s" "s \<le> lineCount"
        "s < blockEnd lines lineCount s" "r = foldAt lines lineCount s" by blast
      with lt show ?thesis by (intro exI [of _ s]) simp
    qed
  qed
qed

lemma foldLoop_members:
  "r \<in> set (foldLoop lines lineCount i []) \<Longrightarrow>
   (\<exists>s. i \<le> s \<and> s \<le> lineCount \<and> s < blockEnd lines lineCount s \<and> r = foldAt lines lineCount s)"
  by (rule foldLoop_members_aux [OF refl])

lemma foldLoop_nested_aux:
  assumes wf: "wellIndented lines lineCount"
  shows "Suc lineCount - i = n \<Longrightarrow> sorted_wrt nestedOrApart (foldLoop lines lineCount i [])"
proof (induction n arbitrary: i rule: less_induct)
  case (less n)
  show ?case
  proof (cases "i \<le> lineCount")
    case False
    then show ?thesis by (simp add: foldLoop_done)
  next
    case True
    let ?k = "blockEnd lines lineCount i"
    let ?i' = "Suc (if token (lines ! i) = Instruction \<or> token (lines ! i) = Comment
             then ?k else i)"
    have lt: "i < ?i'" using blockEnd_ge [of i lines lineCount] by auto
    with True less.prems have m: "Suc lineCount - ?i' < n" by arith
    have rest: "sorted_wrt nestedOrApart (foldLoop lines lineCount ?i' [])"
      by (rule less.IH [OF m refl])
    have first: "nestedOrApart (foldAt lines lineCount i) r"
      if "r \<in> set (foldLoop lines lineCount ?i' [])" for r
    proof -
      from foldLoop_members [OF that] obtain s where s: "?i' \<le> s" "s \<le> lineCount"
        and r: "r = foldAt lines lineCount s" by blast
      show ?thesis
      proof (cases "?k < s")
        case True
        with s lt r show ?thesis by (simp add: nestedOrApart_def foldAt_def)
      next
        case False
        then have sk: "s \<le> ?k" by simp
        with s(1) have tk: "\<not> (token (lines ! i) = Instruction \<or> token (lines ! i) = Comment)"
          by (auto split: if_splits)
        with s(1) have i_lt: "i < s" by simp
        have "blockEnd lines lineCount s \<le> ?k"
        proof (cases "token (lines ! i)")
          case Section
          from nested_in_section [OF Section i_lt sk s(2)] show ?thesis .
        next
          case Operator
          from nested_in_operator [OF wf Operator i_lt sk s(2) True] show ?thesis .
        next
          case Instruction
          with tk show ?thesis by simp
        next
          case Comment
          with tk show ?thesis by simp
        next
          case Empty
          with sk i_lt show ?thesis by (simp add: blockEnd_def)
        next
          case Multiline
          with sk i_lt show ?thesis by (simp add: blockEnd_def)
        next
          case Parameter
          with sk i_lt show ?thesis by (simp add: blockEnd_def)
        qed
        with i_lt r show ?thesis by (simp add: nestedOrApart_def foldAt_def)
      qed
    qed
    from rest first show ?thesis
      by (subst foldLoop_step [OF True]) simp
  qed
qed

lemma indentLoop_Some:
  "0 < tabSize \<Longrightarrow> \<exists>x. indentLoop tabSize (Some i) cs = Some x"
  by (induction cs arbitrary: i) auto

lemma getIndent_Some: "0 < tabSize \<Longrightarrow> \<exists>x. getIndent line tabSize = Some x"
  using indentLoop_Some [of tabSize 0] by (auto simp: getIndent_def)

lemma classifyLines_ok_aux:
  assumes "0 < tabSize"
  shows "Suc lineCount - n = m \<Longrightarrow>
   classifyLines P tabSize lineCount getLine n multiline acc = Inr lines \<Longrightarrow>
   list_all entryOk acc \<Longrightarrow>
   list_all entryOk lines \<and> length lines = length acc + (Suc lineCount - n)"
proof (induction m arbitrary: n multiline acc)
  case 0
  then show ?case by (subst (asm) classifyLines.simps) auto
next
  case (Suc m)
  from Suc.prems(1) have le: "n \<le> lineCount" and m: "Suc lineCount - Suc n = m" by arith+
  define Q where "Q \<longleftrightarrow> list_all entryOk lines \<and> length lines = length acc + (Suc lineCount - n)"
  have step: Q
    if "classifyLines P tabSize lineCount getLine (Suc n) ml' (acc @ [e]) = Inr lines" "entryOk e"
    for ml' e
    using Suc.IH [OF m that(1)] that(2) Suc.prems(3) le by (auto simp: Q_def)
  have ok0: "entryOk \<lparr>token = t, indent = Some 0\<rparr>" for t by (simp add: entryOk_def)
  have ok1: "entryOk \<lparr>token = Operator, indent = getIndent line tabSize\<rparr>" for line
    using getIndent_Some [OF assms, of line] by (auto simp: entryOk_def)
  from Suc.prems(2) le have Q
    by (subst (asm) classifyLines.simps)
       (auto simp: Let_def split: if_splits sum.splits bool.splits intro: step ok0 ok1)
  then show ?case by (simp add: Q_def)
qed

lemma classifyLines_wellIndented:
  assumes "0 < tabSize"
    and "classifyLines P tabSize lineCount getLine 1 False [\<lparr>token = Empty, indent = Some 0\<rparr>] = Inr lines"
  shows "wellIndented lines lineCount"
proof -
  from classifyLines_ok_aux [OF assms(1) refl assms(2)]
  have "list_all entryOk lines" and "length lines = Suc lineCount"
    by (simp_all add: entryOk_def)
  then show ?thesis
    by (auto simp: wellIndented_def list_all_length entryOk_def)
qed

lemma foldLoop_starts_aux:
  "Suc lineCount - i = n \<Longrightarrow> sorted_wrt startsBefore (foldLoop lines lineCount i [])"
proof (induction n arbitrary: i rule: less_induct)
  case (less n)
  show ?case
  proof (cases "i \<le> lineCount")
    case False
    then show ?thesis by (simp add: foldLoop_done)
  next
    case True
    let ?i' = "Suc (if token (lines ! i) = Instruction \<or> token (lines ! i) = Comment
             then blockEnd lines lineCount i else i)"
    have lt: "i < ?i'" using blockEnd_ge [of i lines lineCount] by auto
    with True less.prems have m: "Suc lineCount - ?i' < n" by arith
    have rest: "sorted_wrt startsBefore (foldLoop lines lineCount ?i' [])"
      by (rule less.IH [OF m refl])
    have first: "startsBefore (foldAt lines lineCount i) r"
      if "r \<in> set (foldLoop lines lineCount ?i' [])" for r
    proof -
      from foldLoop_members [OF that] obtain s where "?i' \<le> s" "r = foldAt lines lineCount s"
        by blast
      with lt show ?thesis by (simp add: startsBefore_def foldAt_def)
    qed
    from rest first show ?thesis
      by (subst foldLoop_step [OF True]) simp
  qed
qed

lemma sorted_wrt_members:
  "sorted_wrt R xs \<Longrightarrow> a \<in> set xs \<Longrightarrow> b \<in> set xs \<Longrightarrow> a = b \<or> R a b \<or> R b a"
  by (induction xs) auto

lemma nestedOrApart_not_crossing: "nestedOrApart a b \<Longrightarrow> \<not> crossing a b \<and> \<not> crossing b a"
  by (auto simp: nestedOrApart_def crossing_def)

text \<open>
  Claim C5, as the code has it. The folding of a document nests: the fold of a section
  holds the folds of its operator lines, and these the folds of deeper ones. So two
  ranges may have lines in common, and the claim is read as saying that no two cross.
  Every folding range starts on a line of the document, ends on a later one, and has no
  kind or the kind Comment or Region, never Imports. The ranges come in the order of
  their start lines, no two starting on the same line, whatever the tab width. For a tab
  width above nought no two ranges cross: the later one starts after the end of the
  earlier one, or it ends inside it.
\<close>

theorem C5_folding_ranges:
  assumes "getCodeFolding P tabSize lineCount getLine = Inr ranges"
  shows "(\<forall>r\<in>set ranges.
            1 \<le> foldStart r \<and> foldStart r < foldEnd r \<and> foldEnd r \<le> lineCount \<and>
            foldKind r \<noteq> Some FoldImports) \<and>
         sorted_wrt startsBefore ranges \<and>
         (0 < tabSize \<longrightarrow>
            sorted_wrt nestedOrApart ranges \<and>
            (\<forall>a\<in>set ranges. \<forall>b\<in>set ranges. \<not> crossing a b))"
proof -
  from assms obtain lines where
    c: "classifyLines P tabSize lineCount getLine 1 False [\<lparr>token = Empty, indent = Some 0\<rparr>] = Inr lines"
    and r: "ranges = foldLoop lines lineCount 1 []"
    by (auto simp: getCodeFolding_def split: sum.splits)
  have each: "1 \<le> foldStart x \<and> foldStart x < foldEnd x \<and> foldEnd x \<le> lineCount \<and>
      foldKind x \<noteq> Some FoldImports"
    if "x \<in> set ranges" for x
  proof -
    from that r foldLoop_members [of x lines lineCount 1] obtain s where
      "1 \<le> s" "s \<le> lineCount" "s < blockEnd lines lineCount s" "x = foldAt lines lineCount s"
      by blast
    with blockEnd_le [of s lineCount lines] show ?thesis
      by (auto simp: foldAt_def blockKind_def split: VAToken.splits)
  qed
  have starts: "sorted_wrt startsBefore ranges"
    using foldLoop_starts_aux [OF refl] r by simp
  have nest: "sorted_wrt nestedOrApart ranges" if "0 < tabSize"
    using foldLoop_nested_aux [OF classifyLines_wellIndented [OF that c] refl] r by simp
  have cross: "\<not> crossing a b" if "0 < tabSize" "a \<in> set ranges" "b \<in> set ranges" for a b
    using sorted_wrt_members [OF nest [OF that(1)] that(2,3)] nestedOrApart_not_crossing [of a b]
      nestedOrApart_not_crossing [of b a]
    by (auto simp: crossing_def)
  from each starts nest cross show ?thesis by blast
qed

text \<open>At concrete inputs: Scenario B of the specification, two instruction lines and a
  plain one, and a document with a section, an operator with a nested block of comments,
  and a second section, whose folds lie inside one another.\<close>

theorem C5_folding_example:
  "getCodeFolding clickProvider 4 3 (\<lambda>n. [js ''@skip'', js ''@skip'', js ''plain''] ! (n - 1)) =
     Inr [\<lparr>foldKind = None, foldStart = 1, foldEnd = 2\<rparr>] \<and>
   getCodeFolding clickProvider 4 8
     (\<lambda>n. [js ''Scenario:'', js ''a'', js ''# x'', js ''# y'', js ''  b'', [],
            js ''Feature:'', js ''q''] ! (n - 1)) =
     Inr [\<lparr>foldKind = Some FoldRegion, foldStart = 1, foldEnd = 6\<rparr>,
          \<lparr>foldKind = None, foldStart = 2, foldEnd = 5\<rparr>,
          \<lparr>foldKind = Some FoldComment, foldStart = 3, foldEnd = 4\<rparr>,
          \<lparr>foldKind = Some FoldRegion, foldStart = 7, foldEnd = 8\<rparr>] \<and>
   sorted_wrt startsBefore
         [\<lparr>foldKind = Some FoldRegion, foldStart = 1, foldEnd = 6\<rparr>,
          \<lparr>foldKind = None, foldStart = 2, foldEnd = 5\<rparr>,
          \<lparr>foldKind = Some FoldComment, foldStart = 3, foldEnd = 4\<rparr>,
          \<lparr>foldKind = Some FoldRegion, foldStart = 7, foldEnd = 8\<rparr>] \<and>
   sorted_wrt nestedOrApart
         [\<lparr>foldKind = Some FoldRegion, foldStart = 1, foldEnd = 6\<rparr>,
          \<lparr>foldKind = None, foldStart = 2, foldEnd = 5\<rparr>,
          \<lparr>foldKind = Some FoldComment, foldStart = 3, foldEnd = 4\<rparr>,
          \<lparr>foldKind = Some FoldRegion, foldStart = 7, foldEnd = 8\<rparr>] \<and>
   \<not> crossing \<lparr>foldKind = Some FoldRegion, foldStart = 1, foldEnd = 6\<rparr>
              \<lparr>foldKind = None, foldStart = 2, foldEnd = 5\<rparr>"
proof -
  have a: "getCodeFolding clickProvider 4 3
      (\<lambda>n. [js ''@skip'', js ''@skip'', js ''plain''] ! (n - 1)) =
     Inr [\<lparr>foldKind = None, foldStart = 1, foldEnd = 2\<rparr>]"
    by code_simp
  have b: "getCodeFolding clickProvider 4 8
     (\<lambda>n. [js ''Scenario:'', js ''a'', js ''# x'', js ''# y'', js ''  b'', [],
            js ''Feature:'', js ''q''] ! (n - 1)) =
     Inr [\<lparr>foldKind = Some FoldRegion, foldStart = 1, foldEnd = 6\<rparr>,
          \<lparr>foldKind = None, foldStart = 2, foldEnd = 5\<rparr>,
          \<lparr>foldKind = Some FoldComment, foldStart = 3, foldEnd = 4\<rparr>,
          \<lparr>foldKind = Some FoldRegion, foldStart = 7, foldEnd = 8\<rparr>]"
    by code_simp
  have t: "0 < (4 :: nat)" by simp
  let ?rs = "[\<lparr>foldKind = Some FoldRegion, foldStart = 1, foldEnd = 6\<rparr>,
          \<lparr>foldKind = None, foldStart = 2, foldEnd = 5\<rparr>,
          \<lparr>foldKind = Some FoldComment, foldStart = 3, foldEnd = 4\<rparr>,
          \<lparr>foldKind = Some FoldRegion, foldStart = 7, foldEnd = 8\<rparr>]"
  from C5_folding_ranges [OF b] t
  have s: "sorted_wrt startsBefore ?rs"
    and n: "sorted_wrt nestedOrApart ?rs"
    and x: "\<forall>a\<in>set ?rs. \<forall>b\<in>set ?rs. \<not> crossing a b"
    by blast+
  from x have "\<not> crossing \<lparr>foldKind = Some FoldRegion, foldStart = 1, foldEnd = 6\<rparr>
              \<lparr>foldKind = None, foldStart = 2, foldEnd = 5\<rparr>"
    by simp
  with a b s n show ?thesis by simp
qed

text \<open>The claim as it is written holds for every tab width. With a tab width of nought
  the indent of a line that starts with a tab is \<^verbatim>\<open>NaN\<close>, which no comparison
  \<^verbatim>\<open>next.indent <= line.indent\<close> finds small enough to end a fold, and two ranges cross:
  the second starts on the last line of the first and ends two lines after it.\<close>

theorem C5_crossing_ranges_counterexample:
  "getCodeFolding clickProvider 0 4 (\<lambda>n. [js ''a'', [9, 98], js ''c'', js ''  d''] ! (n - 1)) =
     Inr [\<lparr>foldKind = None, foldStart = 1, foldEnd = 2\<rparr>,
          \<lparr>foldKind = None, foldStart = 2, foldEnd = 4\<rparr>,
          \<lparr>foldKind = None, foldStart = 3, foldEnd = 4\<rparr>] \<and>
   crossing \<lparr>foldKind = None, foldStart = 1, foldEnd = 2\<rparr>
            \<lparr>foldKind = None, foldStart = 2, foldEnd = 4\<rparr>"
  by code_simp

section \<open>Link data\<close>

lemma findVariables_skip_aux:
  "h - k = d \<Longrightarrow> k \<le> h \<Longrightarrow> h < lineCount \<Longrightarrow>
   (\<forall>n. k \<le> n \<and> n < h \<longrightarrow> \<not> variablesHeader m (getLineContent model n)) \<Longrightarrow>
   findVariables P m model lineCount k = findVariables P m model lineCount h"
proof (induction d arbitrary: k)
  case 0
  then show ?case by simp
next
  case (Suc d)
  then have "k < h" and "\<not> variablesHeader m (getLineContent model k)" by auto
  with Suc.prems have "findVariables P m model lineCount k = findVariables P m model lineCount (Suc k)"
    by (subst findVariables.simps) auto
  also have "\<dots> = findVariables P m model lineCount h"
    using Suc.prems \<open>k < h\<close> by (intro Suc.IH) auto
  finally show ?case .
qed

lemma scan_marker:
  assumes "i \<le> lineCount" and "getLineContent model i = js ''* Users''"
    and "regImport m (js ''* Users'') = None" and "\<not> lsMultiline st"
  shows "scanVariables P m model lineCount i st =
         scanVariables P m model lineCount (Suc i) (st\<lparr>lsTable := js ''users''\<rparr>)"
proof -
  have a: "\<not> isMultilineDelimiter (js ''* Users'')" by code_simp
  have b: "dropWhile isSpace (js ''* Users'') = js ''* Users''" by code_simp
  have c: "\<not> startsWith (js ''|'') (js ''* Users'')" by code_simp
  have d: "assignment (js ''* Users'') = None" by code_simp
  have e: "\<not> isCommentOrTag (js ''* Users'')" by code_simp
  have f: "startsWith (js ''*'') (js ''* Users'')" by code_simp
  have g: "toLowerCase (trim (tl (js ''* Users''))) = js ''users''" by code_simp
  from assms a b c d e f g show ?thesis
    by (subst scanVariables.simps) (simp add: Let_def)
qed

lemma scan_row:
  assumes "i \<le> lineCount" and "getLineContent model i = line"
    and "\<not> isMultilineDelimiter line" and "startsWith (js ''|'') (dropWhile isSpace line)"
    and "tableCells line = cells" and "cells \<noteq> []" and "\<not> lsMultiline st"
  shows "scanVariables P m model lineCount i st =
         scanVariables P m model lineCount (Suc i) (tableRow st cells)"
  using assms by (subst scanVariables.simps) (simp add: Let_def)

lemma scan_end:
  assumes "i \<le> lineCount" and "blockEndLine P m (getLineContent model i)" and "\<not> lsMultiline st"
  shows "scanVariables P m model lineCount i st = Inr (Some (i, lsLinks st))"
  using assms by (subst scanVariables.simps) (simp add: Let_def blockEndLine_def)

lemma lsMultiline_tableRow: "lsMultiline (tableRow st cells) = lsMultiline st"
  by (simp add: tableRow_def Let_def split: option.splits)

lemma users_table:
  "lsLinks (tableRow (tableRow (initialScan\<lparr>lsTable := js ''users''\<rparr>) [js ''id'', js ''name''])
      [js ''1'', js ''Alice'']) =
   [([], []),
    (js ''users'',
     [(js ''1'', \<lparr>linkKey = js ''1'', linkName = Some (js ''Alice''), linkFile = None,
                  linkData = Some [(js ''id'', js ''1''), (js ''name'', js ''Alice'')],
                  linkColumn = None, linkTable = None, linkParam = None\<rparr>)])]"
  by code_simp

text \<open>
  Claim C6, as the code has it. Let the first variables header of the document be
  followed by the lines \<^verbatim>\<open>* Users\<close>, \<^verbatim>\<open>| id | name |\<close> and \<^verbatim>\<open>| 1 | Alice |\<close> and then
  by a section line, and let the import pattern not match the marker line. Then the
  lookup of \<^verbatim>\<open>Users.1\<close> returns the record with key \<^verbatim>\<open>1\<close>, name \<^verbatim>\<open>Alice\<close> and the two
  data entries, and with the table \<^verbatim>\<open>users\<close> and the parameter \<^verbatim>\<open>Users.1\<close> written
  into it.
\<close>

theorem C6_users_table_lookup:
  assumes "matcher P = Some m"
    and "1 \<le> h" and "h + 4 \<le> getLineCount model"
    and "\<forall>n. 1 \<le> n \<and> n < h \<longrightarrow> \<not> variablesHeader m (getLineContent model n)"
    and "variablesHeader m (getLineContent model h)"
    and "getLineContent model (h + 1) = js ''* Users''"
    and "getLineContent model (h + 2) = js ''| id | name |''"
    and "getLineContent model (h + 3) = js ''| 1 | Alice |''"
    and "regImport m (js ''* Users'') = None"
    and "blockEndLine P m (getLineContent model (h + 4))"
  shows "getLinkData P model (js ''Users.1'') =
     Inr (Some \<lparr>linkKey = js ''1'', linkName = Some (js ''Alice''), linkFile = None,
                linkData = Some [(js ''id'', js ''1''), (js ''name'', js ''Alice'')],
                linkColumn = None, linkTable = Some (js ''users''),
                linkParam = Some (js ''Users.1'')\<rparr>)"
proof -
  let ?lc = "getLineCount model"
  let ?st1 = "initialScan\<lparr>lsTable := js ''users''\<rparr>"
  let ?st2 = "tableRow ?st1 [js ''id'', js ''name'']"
  let ?st3 = "tableRow ?st2 [js ''1'', js ''Alice'']"
  have r1: "\<not> isMultilineDelimiter (js ''| id | name |'')"
    "startsWith (js ''|'') (dropWhile isSpace (js ''| id | name |''))"
    "tableCells (js ''| id | name |'') = [js ''id'', js ''name'']"
    by code_simp+
  have r2: "\<not> isMultilineDelimiter (js ''| 1 | Alice |'')"
    "startsWith (js ''|'') (dropWhile isSpace (js ''| 1 | Alice |''))"
    "tableCells (js ''| 1 | Alice |'') = [js ''1'', js ''Alice'']"
    by code_simp+
  have m0: "\<not> lsMultiline initialScan" by (simp add: initialScan_def)
  have l1: "getLineContent model (Suc h) = js ''* Users''"
    using assms(6) by simp
  have l2: "getLineContent model (Suc (Suc h)) = js ''| id | name |''"
    using assms(7) by (simp add: numeral_2_eq_2)
  have l3: "getLineContent model (Suc (Suc (Suc h))) = js ''| 1 | Alice |''"
    using assms(8) by (simp add: numeral_3_eq_3)
  have l4: "blockEndLine P m (getLineContent model (Suc (Suc (Suc (Suc h)))))"
    using assms(10) by (simp add: eval_nat_numeral)
  have lc: "Suc (Suc (Suc (Suc h))) \<le> ?lc"
    using assms(3) by simp
  have s1: "scanVariables P m model ?lc (Suc h) initialScan =
            scanVariables P m model ?lc (Suc (Suc h)) ?st1"
    using lc l1 assms(9) m0 by (intro scan_marker) auto
  have s2: "scanVariables P m model ?lc (Suc (Suc h)) ?st1 =
            scanVariables P m model ?lc (Suc (Suc (Suc h))) ?st2"
    using lc l2 r1 m0 by (intro scan_row [where line = "js ''| id | name |''"]) auto
  have s3: "scanVariables P m model ?lc (Suc (Suc (Suc h))) ?st2 =
            scanVariables P m model ?lc (Suc (Suc (Suc (Suc h)))) ?st3"
    using lc l3 r2 m0
    by (intro scan_row [where line = "js ''| 1 | Alice |''"]) (auto simp: lsMultiline_tableRow)
  have s4: "scanVariables P m model ?lc (Suc (Suc (Suc (Suc h)))) ?st3 =
            Inr (Some (h + 4, lsLinks ?st3))"
    using lc l4 m0 scan_end [of "Suc (Suc (Suc (Suc h)))" ?lc P m model ?st3]
    by (simp add: lsMultiline_tableRow)
  have "findVariables P m model ?lc 1 = findVariables P m model ?lc h"
    using assms(2,3,4) by (intro findVariables_skip_aux [OF refl]) auto
  also have "\<dots> = Inr (Some (h + 4, lsLinks ?st3))"
    using assms(3,5) s1 s2 s3 s4 by (subst findVariables.simps) auto
  finally have "getLinks P model ?lc = Inr (h + 4, lsLinks ?st3)"
    using assms(1) by (simp add: getLinks_def)
  moreover have "map toLowerCase (splitOn 46 (js ''Users.1'')) = [js ''users'', js ''1'']"
    by code_simp
  moreover have "linkLookup
     [([], []),
      (js ''users'',
       [(js ''1'', \<lparr>linkKey = js ''1'', linkName = Some (js ''Alice''), linkFile = None,
                  linkData = Some [(js ''id'', js ''1''), (js ''name'', js ''Alice'')],
                  linkColumn = None, linkTable = None, linkParam = None\<rparr>)])]
     (js ''Users.1'') (js ''users'') (js ''1'') None =
     Some \<lparr>linkKey = js ''1'', linkName = Some (js ''Alice''), linkFile = None,
                linkData = Some [(js ''id'', js ''1''), (js ''name'', js ''Alice'')],
                linkColumn = None, linkTable = Some (js ''users''),
                linkParam = Some (js ''Users.1'')\<rparr>"
    by code_simp
  ultimately show ?thesis
    by (simp add: getLinkData_def users_table)
qed

lemma matcher_clickProvider: "matcher clickProvider = Some sampleMatcher"
  by (simp add: clickProvider_def setStepList_def sampleParseSteps_def setKeypairs_def
      setKeywords_def sampleParse_def js_def initialProvider_def updateStepLabels_def
      addStep_def Let_def toLowerCase_def lowerChar_def)

text \<open>Scenario D of the specification, with the section \<^verbatim>\<open>Scenario:\<close> after the
  block.\<close>

theorem C6_users_example:
  "map (getLineContent usersClosed) [1, 2, 3, 4, 5] =
     [js ''Variables:'', js ''* Users'', js ''| id | name |'', js ''| 1 | Alice |'',
      js ''Scenario:''] \<and>
   getLinkData clickProvider usersClosed (js ''Users.1'') =
     Inr (Some \<lparr>linkKey = js ''1'', linkName = Some (js ''Alice''), linkFile = None,
                linkData = Some [(js ''id'', js ''1''), (js ''name'', js ''Alice'')],
                linkColumn = None, linkTable = Some (js ''users''),
                linkParam = Some (js ''Users.1'')\<rparr>)"
proof -
  have lines: "map (getLineContent usersClosed) [1, 2, 3, 4, 5] =
     [js ''Variables:'', js ''* Users'', js ''| id | name |'', js ''| 1 | Alice |'',
      js ''Scenario:'']"
    by code_simp
  have a: "(1 :: nat) + 4 \<le> getLineCount usersClosed" by code_simp
  have b: "\<forall>n. 1 \<le> n \<and> n < (1 :: nat) \<longrightarrow>
      \<not> variablesHeader sampleMatcher (getLineContent usersClosed n)"
    by simp
  have c: "variablesHeader sampleMatcher (getLineContent usersClosed 1)" by code_simp
  have d: "getLineContent usersClosed (1 + 1) = js ''* Users''"
    "getLineContent usersClosed (1 + 2) = js ''| id | name |''"
    "getLineContent usersClosed (1 + 3) = js ''| 1 | Alice |''"
    by code_simp+
  have e: "regImport sampleMatcher (js ''* Users'') = None"
    by (simp add: sampleMatcher_def)
  have f: "blockEndLine clickProvider sampleMatcher (getLineContent usersClosed (1 + 4))"
    by code_simp
  from C6_users_table_lookup [OF matcher_clickProvider order_refl a b c d e f] lines
  show ?thesis by simp
qed

text \<open>The claim as it is written asks for nothing after the block and gives the record
  three fields. With the block at the end of the document \<^verbatim>\<open>getLinks\<close> runs to the
  last line without meeting a section and returns no tables, so the lookup finds
  nothing; with a section after the block the record returned is not the one of three
  fields, since table and parameter are set in it.\<close>

theorem C6_block_at_end_counterexample:
  "map (getLineContent usersOpen) [1, 2, 3, 4] =
     [js ''Variables:'', js ''* Users'', js ''| id | name |'', js ''| 1 | Alice |''] \<and>
   variablesHeader sampleMatcher (getLineContent usersOpen 1) \<and>
   getLinkData clickProvider usersOpen (js ''Users.1'') = Inr None \<and>
   getLinkData clickProvider usersClosed (js ''Users.1'') \<noteq>
     Inr (Some \<lparr>linkKey = js ''1'', linkName = Some (js ''Alice''), linkFile = None,
                linkData = Some [(js ''id'', js ''1''), (js ''name'', js ''Alice'')],
                linkColumn = None, linkTable = None, linkParam = None\<rparr>)"
  by code_simp

end
